theory Spec2Isabelle
  imports Main "HOL-Library.Sublist"
begin

section \<open>Go strings and the \<open>strings\<close> package\<close>

text \<open>
  A Go string is a sequence of bytes; it is modelled as a \<open>string\<close> (a list of 8-bit
  characters). The functions of this section are the ones of Go's standard library that
  the program calls, written out for the Unix build.
\<close>

definition HasPrefix :: "string \<Rightarrow> string \<Rightarrow> bool" where
  \<comment> \<open>\<open>strings.HasPrefix(s, prefix)\<close>: \<open>len(s) >= len(prefix) && s[:len(prefix)] == prefix\<close>.\<close>
  "HasPrefix s pre = (length pre \<le> length s \<and> take (length pre) s = pre)"

definition TrimPrefix :: "string \<Rightarrow> string \<Rightarrow> string" where
  \<comment> \<open>\<open>strings.TrimPrefix\<close>: drops the prefix when it is there, else returns \<open>s\<close>.\<close>
  "TrimPrefix s pre = (if HasPrefix s pre then drop (length pre) s else s)"

fun Index :: "string \<Rightarrow> string \<Rightarrow> nat option" where
  \<comment> \<open>\<open>strings.Index(s, substr)\<close>: the index of the first occurrence, \<open>None\<close> for -1.\<close>
  "Index [] sub = (if sub = [] then Some 0 else None)"
| "Index (x # xs) sub =
     (if HasPrefix (x # xs) sub then Some 0 else map_option Suc (Index xs sub))"

definition Contains :: "string \<Rightarrow> string \<Rightarrow> bool" where
  \<comment> \<open>\<open>strings.Contains(s, substr)\<close> is \<open>Index(s, substr) >= 0\<close>.\<close>
  "Contains s sub = (Index s sub \<noteq> None)"

function Split :: "string \<Rightarrow> string \<Rightarrow> string list" where
  \<comment> \<open>\<open>strings.Split(s, sep)\<close>: cut at each occurrence of \<open>sep\<close>, found from the left.
      With an empty separator Go cuts after every UTF-8 sequence; the program never
      passes one, and the model cuts after every byte there.\<close>
  "Split s sep =
     (if sep = [] then map (\<lambda>c. [c]) s
      else case Index s sep of
             None \<Rightarrow> [s]
           | Some i \<Rightarrow> take i s # Split (drop (i + length sep) s) sep)"
  by pat_completeness auto

lemma Index_le: "Index s sub = Some i \<Longrightarrow> i + length sub \<le> length s"
proof (induction s arbitrary: i)
  case Nil
  then show ?case by (simp split: if_splits)
next
  case (Cons x xs)
  then show ?case by (auto simp: HasPrefix_def split: if_splits)
qed

termination Split
proof (relation "measure (\<lambda>(s, sep). length s)")
  show "wf (measure (\<lambda>(s, sep). length s))" by simp
next
  fix s sep :: string and i
  assume "sep \<noteq> []" and "Index s sep = Some i"
  then have "i + length sep \<le> length s" and "0 < length sep"
    using Index_le by auto
  then show "((drop (i + length sep) s, sep), (s, sep)) \<in> measure (\<lambda>(s, sep). length s)"
    by (cases sep) auto
qed

declare Split.simps [simp del]

fun strings_Join :: "string list \<Rightarrow> string \<Rightarrow> string" where
  \<comment> \<open>\<open>strings.Join(elems, sep)\<close>.\<close>
  "strings_Join [] sep = []"
| "strings_Join [x] sep = x"
| "strings_Join (x # y # ys) sep = x @ sep @ strings_Join (y # ys) sep"

definition space_seqs :: "string list" where
  \<comment> \<open>The UTF-8 encodings of the code points for which Go's \<open>unicode.IsSpace\<close> holds:
      the six ASCII ones, U+0085, U+00A0, U+1680, U+2000 to U+200A, U+2028, U+2029,
      U+202F, U+205F and U+3000.\<close>
  "space_seqs =
     [[CHR 0x09], [CHR 0x0A], [CHR 0x0B], [CHR 0x0C], [CHR 0x0D], [CHR 0x20],
      [CHR 0xC2, CHR 0x85], [CHR 0xC2, CHR 0xA0], [CHR 0xE1, CHR 0x9A, CHR 0x80],
      [CHR 0xE2, CHR 0x80, CHR 0x80], [CHR 0xE2, CHR 0x80, CHR 0x81],
      [CHR 0xE2, CHR 0x80, CHR 0x82], [CHR 0xE2, CHR 0x80, CHR 0x83],
      [CHR 0xE2, CHR 0x80, CHR 0x84], [CHR 0xE2, CHR 0x80, CHR 0x85],
      [CHR 0xE2, CHR 0x80, CHR 0x86], [CHR 0xE2, CHR 0x80, CHR 0x87],
      [CHR 0xE2, CHR 0x80, CHR 0x88], [CHR 0xE2, CHR 0x80, CHR 0x89],
      [CHR 0xE2, CHR 0x80, CHR 0x8A], [CHR 0xE2, CHR 0x80, CHR 0xA8],
      [CHR 0xE2, CHR 0x80, CHR 0xA9], [CHR 0xE2, CHR 0x80, CHR 0xAF],
      [CHR 0xE2, CHR 0x81, CHR 0x9F], [CHR 0xE3, CHR 0x80, CHR 0x80]]"

definition leading_space :: "string \<Rightarrow> nat" where
  \<comment> \<open>The width in bytes of the white-space rune \<open>s\<close> starts with; 0 when it starts with none.\<close>
  "leading_space s = (case find (\<lambda>w. HasPrefix s w) space_seqs of None \<Rightarrow> 0 | Some w \<Rightarrow> length w)"

definition trailing_space :: "string \<Rightarrow> nat" where
  \<comment> \<open>The width in bytes of the white-space rune \<open>s\<close> ends with; 0 when it ends with none.\<close>
  "trailing_space s =
     (case find (\<lambda>w. HasPrefix (rev s) (rev w)) space_seqs of None \<Rightarrow> 0 | Some w \<Rightarrow> length w)"

function TrimLeftSpace :: "string \<Rightarrow> string" where
  "TrimLeftSpace s =
     (if leading_space s = 0 then s else TrimLeftSpace (drop (leading_space s) s))"
  by pat_completeness auto

function TrimRightSpace :: "string \<Rightarrow> string" where
  "TrimRightSpace s =
     (if trailing_space s = 0 then s
      else TrimRightSpace (take (length s - trailing_space s) s))"
  by pat_completeness auto

lemma leading_space_pos: "0 < leading_space s \<Longrightarrow> s \<noteq> []"
  by (auto simp: leading_space_def HasPrefix_def space_seqs_def split: option.splits)

lemma trailing_space_pos: "0 < trailing_space s \<Longrightarrow> s \<noteq> []"
  by (auto simp: trailing_space_def HasPrefix_def space_seqs_def split: option.splits)

termination TrimLeftSpace
  by (relation "measure length") (use leading_space_pos in auto)

termination TrimRightSpace
  by (relation "measure length") (use trailing_space_pos in auto)

declare TrimLeftSpace.simps [simp del] TrimRightSpace.simps [simp del]

definition TrimSpace :: "string \<Rightarrow> string" where
  \<comment> \<open>\<open>strings.TrimSpace(s)\<close>: \<open>s\<close> without its leading and trailing white space. Go takes
      a fast path on ASCII bytes and decodes runes from the first byte above 0x7F on;
      both remove exactly the white-space runes at the two ends.\<close>
  "TrimSpace s = TrimRightSpace (TrimLeftSpace s)"

section \<open>Paths: the \<open>path/filepath\<close> package on Unix\<close>

fun path_elements :: "string \<Rightarrow> string list" where
  \<comment> \<open>The elements of a path: the pieces between its separators (there is always one).\<close>
  "path_elements [] = [[]]"
| "path_elements (x # xs) =
     (if x = CHR ''/'' then [] # path_elements xs
      else case path_elements xs of [] \<Rightarrow> [[x]] | w # ws \<Rightarrow> (x # w) # ws)"

definition clean_step :: "bool \<Rightarrow> string list \<Rightarrow> string \<Rightarrow> string list" where
  \<comment> \<open>One element of the loop of \<open>Clean\<close>. The output written so far is the list of its
      elements, the last one first. An empty element and \<open>.\<close> are dropped; \<open>..\<close> removes
      the element before it when there is one that is not \<open>..\<close> itself, is kept at the
      start of a path that is not rooted, and is dropped at the start of a rooted one.\<close>
  "clean_step rooted out e =
     (if e = [] \<or> e = ''.'' then out
      else if e = ''..'' then
        (case out of
           prev # rest \<Rightarrow> if prev \<noteq> ''..'' then rest else if rooted then out else e # out
         | [] \<Rightarrow> if rooted then out else e # out)
      else e # out)"

definition Clean :: "string \<Rightarrow> string" where
  \<comment> \<open>\<open>filepath.Clean(path)\<close>: the shortest path name equivalent to \<open>path\<close> by purely
      lexical processing; \<open>.\<close> for the empty path.\<close>
  "Clean path =
     (if path = [] then ''.''
      else
        let rooted = (hd path = CHR ''/'');
            out = foldl (clean_step rooted) [] (path_elements path);
            res = (if rooted then ''/'' else []) @ strings_Join (rev out) ''/''
        in if res = [] then ''.'' else res)"

definition filepath_Join :: "string list \<Rightarrow> string" where
  \<comment> \<open>\<open>filepath.Join(elem...)\<close>: leading empty elements are skipped, the rest is joined
      with the separator and cleaned; the empty string when every element is empty.\<close>
  "filepath_Join elem =
     (case dropWhile (\<lambda>e. e = []) elem of [] \<Rightarrow> [] | es \<Rightarrow> Clean (strings_Join es ''/''))"

definition Dir :: "string \<Rightarrow> string" where
  \<comment> \<open>\<open>filepath.Dir(path)\<close>: everything up to and including the last separator, cleaned.\<close>
  "Dir path = Clean (rev (dropWhile (\<lambda>c. c \<noteq> CHR ''/'') (rev path)))"

definition IsAbs :: "string \<Rightarrow> bool" where
  "IsAbs path = HasPrefix path ''/''"

text \<open>
  Two notions for speaking about directory trees: a file name, and the directory reached
  from a given one by going down through a list of names.
\<close>

definition name_ok :: "string \<Rightarrow> bool" where
  \<comment> \<open>A file name: not empty, without a separator, neither \<open>.\<close> nor \<open>..\<close>.\<close>
  "name_ok c = (c \<noteq> [] \<and> CHR ''/'' \<notin> set c \<and> c \<noteq> ''.'' \<and> c \<noteq> ''..'')"

definition descend :: "string \<Rightarrow> string list \<Rightarrow> string" where
  \<comment> \<open>The directory reached from \<open>A\<close> by going down through the given names.\<close>
  "descend A cs = foldl (\<lambda>p c. p @ ''/'' @ c) A cs"

section \<open>The operating system\<close>

datatype os_error = ErrNotExist | ErrPermission | ErrIO | ErrOther

record file_info =
  IsDir :: bool

text \<open>
  An open file answers \<open>io.ReadAll\<close> with its content or an error, and \<open>Close\<close> with
  an error or none.
\<close>

record os_file =
  ReadAll :: "os_error + string"
  Close :: "os_error option"

text \<open>
  What the program asks of its environment: \<open>os.Stat\<close>, \<open>os.Open\<close>, \<open>os.Getwd\<close> and
  \<open>os.UserHomeDir\<close>. Each answer is a value or the error the call returns.
\<close>

record os_env =
  Stat :: "string \<Rightarrow> os_error + file_info"
  Open :: "string \<Rightarrow> os_error + os_file"
  Getwd :: "os_error + string"
  UserHomeDir :: "os_error + string"

definition Abs :: "os_env \<Rightarrow> string \<Rightarrow> os_error + string" where
  \<comment> \<open>\<open>filepath.Abs(path)\<close>: a clean absolute path; a relative one is joined to the
      working directory, and the error of \<open>os.Getwd\<close> is returned.\<close>
  "Abs env path =
     (if IsAbs path then Inr (Clean path)
      else case Getwd env of Inl e \<Rightarrow> Inl e | Inr wd \<Rightarrow> Inr (filepath_Join [wd, path]))"

subsection \<open>Cleaning never lengthens a path\<close>

text \<open>
  The walk of \<open>FindRoot\<close> ends because \<open>Dir\<close> shortens a path until it reaches
  a fixed point. The bound comes from the elements: each one costs its length plus one
  separator, and no step of \<open>Clean\<close> writes more than it reads.
\<close>

definition cost :: "string list \<Rightarrow> nat" where
  "cost es = sum_list (map (\<lambda>e. Suc (length e)) es)"

lemma cost_simps [simp]: "cost [] = 0" "cost (e # es) = Suc (length e) + cost es"
  "cost (es @ fs) = cost es + cost fs" "cost (rev es) = cost es"
  by (simp_all add: cost_def rev_map[symmetric] sum_list_rev del: rev_map)

lemma path_elements_ne [simp]: "path_elements s \<noteq> []"
  by (induction s) (auto split: list.splits)

lemma cost_path_elements: "cost (path_elements s) = Suc (length s)"
  by (induction s) (auto split: list.splits)

lemma path_elements_snoc: "path_elements (s @ ''/'') = path_elements s @ [[]]"
  by (induction s) (auto split: list.splits)

lemma cost_clean_step: "cost (clean_step r out e) \<le> cost out + Suc (length e)"
  by (auto simp: clean_step_def split: list.splits)

lemma cost_foldl_clean: "cost (foldl (clean_step r) out es) \<le> cost out + cost es"
proof (induction es arbitrary: out)
  case Nil
  then show ?case by simp
next
  case (Cons e es)
  have "cost (foldl (clean_step r) (clean_step r out e) es) \<le> cost (clean_step r out e) + cost es"
    by (rule Cons.IH)
  also have "\<dots> \<le> cost out + Suc (length e) + cost es"
    using cost_clean_step [of r out e] by simp
  finally show ?case by simp
qed

lemma length_strings_Join: "length (strings_Join es ''/'') = cost es - 1"
  by (induction es "''/''" rule: strings_Join.induct) auto

lemma strings_Join_Nil_iff: "strings_Join es ''/'' = [] \<longleftrightarrow> es = [] \<or> es = [[]]"
  by (induction es "''/''" rule: strings_Join.induct) auto

lemma Clean_ne [simp]: "Clean s \<noteq> []"
  by (auto simp: Clean_def Let_def)

lemma length_Clean_bound:
  assumes "s \<noteq> []"
  shows "length (Clean s) \<le> max 1 (cost (foldl (clean_step (hd s = CHR ''/'')) [] (path_elements s))
           - (if hd s = CHR ''/'' then 0 else 1))"
  using assms by (auto simp: Clean_def Let_def length_strings_Join)

lemma foldl_clean_empty [simp]: "clean_step r out [] = out"
  by (simp add: clean_step_def)

lemma length_Clean_le: "s \<noteq> [] \<Longrightarrow> length (Clean s) \<le> length s"
proof (cases s)
  case Nil
  then show "s \<noteq> [] \<Longrightarrow> ?thesis" by simp
next
  case (Cons x xs)
  show ?thesis
  proof (cases "x = CHR ''/''")
    case True
    have "cost (foldl (clean_step True) [] (path_elements xs)) \<le> Suc (length xs)"
      using cost_foldl_clean [of True "[]" "path_elements xs"] by (simp add: cost_path_elements)
    then show ?thesis using length_Clean_bound [of s] Cons True by auto
  next
    case False
    have "cost (foldl (clean_step False) [] (path_elements s)) \<le> Suc (length s)"
      using cost_foldl_clean [of False "[]" "path_elements s"] by (simp add: cost_path_elements)
    then show ?thesis using length_Clean_bound [of s] Cons False by auto
  qed
qed

lemma length_Clean_trailing:
  assumes "s \<noteq> []"
  shows "length (Clean (s @ ''/'')) \<le> length s"
proof (cases s)
  case Nil
  with assms show ?thesis by simp
next
  case (Cons x xs)
  show ?thesis
  proof (cases "x = CHR ''/''")
    case True
    have "cost (foldl (clean_step True) [] (path_elements xs)) \<le> Suc (length xs)"
      using cost_foldl_clean [of True "[]" "path_elements xs"] by (simp add: cost_path_elements)
    then show ?thesis using length_Clean_bound [of "s @ ''/''"] Cons True
      by (auto simp: path_elements_snoc)
  next
    case False
    have "cost (foldl (clean_step False) [] (path_elements s)) \<le> Suc (length s)"
      using cost_foldl_clean [of False "[]" "path_elements s"] by (simp add: cost_path_elements)
    moreover have "path_elements ((x # xs) @ ''/'') = path_elements (x # xs) @ [[]]"
      by (rule path_elements_snoc)
    ultimately show ?thesis using length_Clean_bound [of "s @ ''/''"] Cons False
      by (auto simp del: path_elements.simps)
  qed
qed

definition dir_measure :: "string \<Rightarrow> nat" where
  "dir_measure p = (if p = [] then 3 else 2 * length p + (if p = ''.'' then 0 else 1))"

lemma dropWhile_sep_cases:
  "dropWhile (\<lambda>c. c \<noteq> CHR ''/'') (rev p) = [] \<or>
   (\<exists>q. rev (dropWhile (\<lambda>c. c \<noteq> CHR ''/'') (rev p)) = q @ ''/'' \<and> length q < length p)"
proof (cases "dropWhile (\<lambda>c. c \<noteq> CHR ''/'') (rev p)")
  case Nil
  then show ?thesis by simp
next
  case (Cons y ys)
  then have "y = CHR ''/''" using hd_dropWhile [of "\<lambda>c. c \<noteq> CHR ''/''" "rev p"] by auto
  moreover have "length (y # ys) \<le> length p"
    using length_dropWhile_le [of "\<lambda>c. c \<noteq> CHR ''/''" "rev p"] Cons by simp
  ultimately show ?thesis using Cons by auto
qed

lemma Dir_measure: "Dir p \<noteq> p \<Longrightarrow> dir_measure (Dir p) < dir_measure p"
proof -
  assume neq: "Dir p \<noteq> p"
  consider (none) "dropWhile (\<lambda>c. c \<noteq> CHR ''/'') (rev p) = []"
    | (some) q where "rev (dropWhile (\<lambda>c. c \<noteq> CHR ''/'') (rev p)) = q @ ''/''" "length q < length p"
    using dropWhile_sep_cases [of p] by blast
  then show ?thesis
  proof cases
    case none
    then have "Dir p = ''.''" by (simp add: Dir_def Clean_def)
    with neq show ?thesis by (cases p) (auto simp: dir_measure_def)
  next
    case some
    show ?thesis
    proof (cases "q = []")
      case True
      then have d: "Dir p = ''/''" using some by (simp add: Dir_def Clean_def clean_step_def)
      with neq some True have "2 \<le> length p" by (cases p; cases "tl p") auto
      with d show ?thesis by (auto simp: dir_measure_def)
    next
      case False
      then have "length (Dir p) \<le> length q"
        using length_Clean_trailing [of q] some by (simp add: Dir_def)
      with some have "length (Dir p) < length p" by simp
      moreover have "Dir p \<noteq> []" by (simp add: Dir_def)
      ultimately show ?thesis by (auto simp: dir_measure_def)
    qed
  qed
qed

section \<open>Errors\<close>

text \<open>
  Every error the program returns, and the panic of a deferred \<open>Close\<close> that fails, is a
  value; a function that can fail returns \<open>error + 'a\<close>.
\<close>

datatype engine_error = EngineError string

datatype error =
    ErrNoGitRepository  \<comment> \<open>\<open>no git repository found\<close>\<close>
  | ErrOS os_error  \<comment> \<open>an error of the operating system, returned as it is\<close>
  | ErrParseUP string  \<comment> \<open>\<open>failed to parse UP document\<close>\<close>
  | ErrNoImage  \<comment> \<open>\<open>script must specify image\<close>\<close>
  | ErrCreateClient engine_error  \<comment> \<open>\<open>failed to create docker client\<close>\<close>
  | ErrGetwd os_error  \<comment> \<open>\<open>failed to get current directory\<close>\<close>
  | ErrCreateContainer engine_error  \<comment> \<open>\<open>failed to create container\<close>\<close>
  | ErrStartContainer engine_error  \<comment> \<open>\<open>failed to start container\<close>\<close>
  | ErrWaitContainer engine_error  \<comment> \<open>\<open>error waiting for container\<close>\<close>
  | ExitError string nat  \<comment> \<open>\<open>cli.Exit(message, code)\<close>\<close>
  | Panic  \<comment> \<open>a deferred \<open>Close\<close> failed\<close>

section \<open>Repository discovery (\<open>internal/git/discovery.go\<close>)\<close>

function FindRoot :: "os_env \<Rightarrow> string \<Rightarrow> error + string" where
  "FindRoot env dir =
     (case Stat env (filepath_Join [dir, ''.git'']) of
        Inr _ \<Rightarrow> Inr dir
      | Inl _ \<Rightarrow>
          (let parent = Dir dir
           in if parent = dir then Inl ErrNoGitRepository else FindRoot env parent))"
  by pat_completeness auto
termination
  by (relation "measure (\<lambda>(env, dir). dir_measure dir)") (auto simp: Dir_measure)

declare FindRoot.simps [simp del]

fun gitdir_of_lines :: "string \<Rightarrow> string list \<Rightarrow> string" where
  \<comment> \<open>The loop of \<open>FindRealGitDir\<close> over the lines of the \<open>.git\<close> file: the first line
      that starts with \<open>gitdir: \<close> decides; with none, the path of the file itself.\<close>
  "gitdir_of_lines gitPath [] = gitPath"
| "gitdir_of_lines gitPath (line # lines) =
     (if HasPrefix line ''gitdir: '' then
        (let worktreeGitDir = TrimSpace (TrimPrefix line ''gitdir:'')
         in if Contains worktreeGitDir ''/worktrees/'' then
              (let parts = Split worktreeGitDir ''/worktrees/''
               in if length parts > 0 then hd parts else worktreeGitDir)
            else worktreeGitDir)
      else gitdir_of_lines gitPath lines)"

definition FindRealGitDir :: "os_env \<Rightarrow> string \<Rightarrow> error + string" where
  "FindRealGitDir env gitRoot =
     (let gitPath = filepath_Join [gitRoot, ''.git'']
      in case Stat env gitPath of
           Inl e \<Rightarrow> Inl (ErrOS e)
         | Inr info \<Rightarrow>
             if IsDir info then Inr gitPath
             else case Open env gitPath of
                    Inl e \<Rightarrow> Inl (ErrOS e)
                  | Inr file \<Rightarrow>
                      (let res = (case ReadAll file of
                                    Inl e \<Rightarrow> Inl (ErrOS e)
                                  | Inr content \<Rightarrow>
                                      Inr (gitdir_of_lines gitPath (Split content ''\<newline>'')))
                       in case Close file of Some e \<Rightarrow> Inl Panic | None \<Rightarrow> res))"

section \<open>Volume expressions (\<open>internal/mount/parser.go\<close>)\<close>

datatype mount_type = TypeBind

record mount =
  Type :: mount_type
  Source :: string
  Target :: string
  ReadOnly :: bool

definition expandPath :: "os_env \<Rightarrow> string \<Rightarrow> string" where
  "expandPath env path =
     (case (if HasPrefix path ''~/'' then
              (case UserHomeDir env of
                 Inr home \<Rightarrow> Some (filepath_Join [home, drop 2 path])
               | Inl _ \<Rightarrow> None)
            else None) of
        Some expanded \<Rightarrow> expanded
      | None \<Rightarrow>
          if \<not> IsAbs path then
            (case Abs env path of Inr abspath \<Rightarrow> abspath | Inl _ \<Rightarrow> path)
          else path)"

definition ParseVolume :: "os_env \<Rightarrow> string \<Rightarrow> mount option" where
  "ParseVolume env vol =
     (let parts = Split vol '':''
      in if length parts < 2 then None
         else
           let source = parts ! 0;
               target = parts ! 1;
               readonly = (length parts = 3 \<and> parts ! 2 = ''ro'');
               source = expandPath env source
           in case Stat env source of
                Inl _ \<Rightarrow> None
              | Inr _ \<Rightarrow>
                  Some \<lparr>Type = TypeBind, Source = source, Target = target, ReadOnly = readonly\<rparr>)"

section \<open>The configuration of a run (\<open>internal/container/run/config.go\<close>)\<close>

record log_config =
  Level :: string
  Format :: string

record Config =
  Image :: string
  Command :: "string list"
  Entrypoint :: "string list"
  WorkingDir :: string
  Environment :: "string list"
  Volumes :: "string list"
  User :: string
  NetworkMode :: string
  Interactive :: bool
  NoGit :: bool
  Privileged :: bool
  ScriptPath :: string
  ScriptArgs :: "string list"
  Output :: string
  Logging :: log_config

section \<open>Launch scripts (\<open>internal/script/parser.go\<close>)\<close>

text \<open>
  The values of a parsed UP document: a scalar is a Go string, a list is a slice of
  values, a block is a Go map (here the pairs in the order the \<open>range\<close> loop visits
  them), and anything else the parser may build.
\<close>

datatype up_value =
    UString string
  | UList "up_value list"
  | UBlock "(string \<times> up_value) list"
  | UOther

datatype up_node = Node (Key: string) (Value: up_value)

type_synonym up_parser = "string \<Rightarrow> string + up_node list"

fun scalars :: "up_value list \<Rightarrow> string list" where
  \<comment> \<open>The items of a list that are strings, in order; the others are skipped.\<close>
  "scalars [] = []"
| "scalars (UString s # items) = s # scalars items"
| "scalars (_ # items) = scalars items"

fun extractList :: "up_value \<Rightarrow> string list" where
  "extractList (UList list) = scalars list"
| "extractList _ = []"

fun block_entries :: "(string \<times> up_value) list \<Rightarrow> string list" where
  "block_entries [] = []"
| "block_entries ((key, UString s) # kvs) = (key @ ''='' @ s) # block_entries kvs"
| "block_entries (_ # kvs) = block_entries kvs"

fun extractEnvironment :: "up_value \<Rightarrow> string list" where
  "extractEnvironment (UList v) = scalars v"
| "extractEnvironment (UBlock v) = block_entries v"
| "extractEnvironment _ = []"

definition apply_node :: "Config \<Rightarrow> up_node \<Rightarrow> Config" where
  \<comment> \<open>The body of the loop of \<open>ParseFile\<close> over the nodes: the \<open>switch\<close> on the key.\<close>
  "apply_node config node =
     (let k = Key node; v = Value node
      in if k = ''image'' then
           (case v of UString scalar \<Rightarrow> config\<lparr>Image := scalar\<rparr> | _ \<Rightarrow> config)
         else if k = ''command'' then config\<lparr>Command := Command config @ extractList v\<rparr>
         else if k = ''entrypoint'' then
           config\<lparr>Entrypoint := Entrypoint config @ extractList v\<rparr>
         else if k = ''workdir'' \<or> k = ''working_dir'' then
           (case v of UString scalar \<Rightarrow> config\<lparr>WorkingDir := scalar\<rparr> | _ \<Rightarrow> config)
         else if k = ''env'' \<or> k = ''environment'' then
           config\<lparr>Environment := Environment config @ extractEnvironment v\<rparr>
         else if k = ''volume'' \<or> k = ''volumes'' then
           config\<lparr>Volumes := Volumes config @ extractList v\<rparr>
         else if k = ''user'' then
           (case v of UString scalar \<Rightarrow> config\<lparr>User := scalar\<rparr> | _ \<Rightarrow> config)
         else if k = ''interactive'' then
           (case v of UString scalar \<Rightarrow> config\<lparr>Interactive := (scalar = ''true'')\<rparr>
            | _ \<Rightarrow> config)
         else if k = ''privileged'' then
           (case v of UString scalar \<Rightarrow> config\<lparr>Privileged := (scalar = ''true'')\<rparr>
            | _ \<Rightarrow> config)
         else if k = ''network_mode'' then
           (case v of UString scalar \<Rightarrow> config\<lparr>NetworkMode := scalar\<rparr> | _ \<Rightarrow> config)
         else config)"

definition zero_Config :: Config where
  \<comment> \<open>The zero value of \<open>Config\<close>, which \<open>ParseFile\<close> starts from (its four slices empty).\<close>
  "zero_Config =
     \<lparr>Image = [], Command = [], Entrypoint = [], WorkingDir = [], Environment = [],
      Volumes = [], User = [], NetworkMode = [], Interactive = False, NoGit = False,
      Privileged = False, ScriptPath = [], ScriptArgs = [], Output = [],
      Logging = \<lparr>Level = [], Format = []\<rparr>\<rparr>"

definition ParseFile :: "os_env \<Rightarrow> up_parser \<Rightarrow> string \<Rightarrow> error + Config" where
  "ParseFile env ParseDocument path =
     (case Open env path of
        Inl e \<Rightarrow> Inl (ErrOS e)
      | Inr file \<Rightarrow>
          (let res =
             (case ReadAll file of
                Inl e \<Rightarrow> Inl (ErrOS e)
              | Inr content \<Rightarrow>
                  (let lines = Split content ''\<newline>'';
                       content = (if length lines > 0 \<and> HasPrefix (lines ! 0) ''#!''
                                  then strings_Join (tl lines) ''\<newline>'' else content)
                   in case ParseDocument content of
                        Inl e \<Rightarrow> Inl (ErrParseUP e)
                      | Inr nodes \<Rightarrow>
                          (let config = foldl apply_node zero_Config nodes
                           in if Image config = [] then Inl ErrNoImage else Inr config)))
           in case Close file of Some e \<Rightarrow> Inl Panic | None \<Rightarrow> res))"

section \<open>Running a container (\<open>internal/container/run/run.go\<close>)\<close>

text \<open>
  The two structures handed to the execution engine, with the fields the program sets,
  and the result of a run.
\<close>

record container_config =
  cc_Image :: string
  cc_Cmd :: "string list"
  cc_Entrypoint :: "string list"
  cc_WorkingDir :: string
  cc_Env :: "string list"
  cc_User :: string
  cc_Tty :: bool
  cc_AttachStdin :: bool
  cc_AttachStdout :: bool
  cc_AttachStderr :: bool
  cc_OpenStdin :: bool

record host_config =
  hc_Mounts :: "mount list"
  hc_AutoRemove :: bool
  hc_Privileged :: bool
  hc_NetworkMode :: string

record MountInfo =
  mi_Source :: string
  mi_Target :: string

record Result =
  res_Success :: bool
  res_ContainerID :: string
  res_Image :: string
  res_WorkingDir :: string
  res_Mounts :: "MountInfo list"
  res_GitRoot :: string
  res_ScriptPath :: string
  res_Message :: string

text \<open>
  The execution engine is a black box: it answers each call with an error or a value.
  Every call the program makes is recorded, in order, with its arguments.
\<close>

record engine =
  NewClient :: "engine_error option"
  ContainerCreate :: "container_config \<Rightarrow> host_config \<Rightarrow> engine_error + string"
  ContainerStart :: "string \<Rightarrow> engine_error option"
  ContainerWait :: "string \<Rightarrow> engine_error option"
  ClientClose :: "engine_error option"

datatype engine_call =
    CallNewClient
  | CallContainerCreate container_config host_config
  | CallContainerStart string
  | CallContainerWait string
  | CallClose

definition bind_mount :: "string \<Rightarrow> string \<Rightarrow> mount" where
  \<comment> \<open>\<open>mount.Mount{Type: mount.TypeBind, Source: source, Target: target}\<close>.\<close>
  "bind_mount source target = \<lparr>Type = TypeBind, Source = source, Target = target, ReadOnly = False\<rparr>"

definition base_mounts :: "os_env \<Rightarrow> Config \<Rightarrow> string \<Rightarrow> error + mount list \<times> string" where
  \<comment> \<open>The part of \<open>Run\<close> that builds \<open>mounts\<close> and \<open>gitRoot\<close> from the working directory.
      The errors of \<open>FindRoot\<close> and \<open>FindRealGitDir\<close> are dropped there; a panic is not.\<close>
  "base_mounts env cfg pwd =
     (let mounts = [bind_mount pwd pwd]
      in if \<not> NoGit cfg then
           (case FindRoot env pwd of
              Inl _ \<Rightarrow> Inr (mounts, [])
            | Inr foundGitRoot \<Rightarrow>
                if foundGitRoot \<noteq> [] \<and> foundGitRoot \<noteq> pwd then
                  (let mounts = mounts @ [bind_mount foundGitRoot foundGitRoot]
                   in case FindRealGitDir env foundGitRoot of
                        Inl Panic \<Rightarrow> Inl Panic
                      | Inl _ \<Rightarrow> Inr (mounts, foundGitRoot)
                      | Inr realGitDir \<Rightarrow>
                          if realGitDir \<noteq> [] then
                            (let gitDirPath = filepath_Join [foundGitRoot, ''.git'']
                             in if realGitDir \<noteq> gitDirPath
                                then Inr (mounts @ [bind_mount realGitDir gitDirPath], foundGitRoot)
                                else Inr (mounts, foundGitRoot))
                          else Inr (mounts, foundGitRoot))
                else Inr (mounts, []))
         else Inr (mounts, []))"

definition run_container ::
  "engine \<Rightarrow> os_env \<Rightarrow> Config \<Rightarrow> engine_call list \<times> (error + Result)" where
  \<comment> \<open>\<open>Run\<close> between the creation of the client and its deferred \<open>Close\<close>.\<close>
  "run_container eng env cfg =
     (case Getwd env of
        Inl e \<Rightarrow> ([], Inl (ErrGetwd e))
      | Inr pwd \<Rightarrow>
          (case base_mounts env cfg pwd of
             Inl e \<Rightarrow> ([], Inl e)
           | Inr (mounts, gitRoot) \<Rightarrow>
               (let image = Image cfg;
                    cmd = Command cfg;
                    entrypoint = Entrypoint cfg;
                    env_list = Environment cfg;
                    workingDir = WorkingDir cfg;
                    user = User cfg;
                    networkMode = NetworkMode cfg;
                    stdinOpen = Interactive cfg;
                    tty = Interactive cfg;
                    privileged = Privileged cfg;
                    cmd = (if ScriptPath cfg \<noteq> [] then cmd @ ScriptArgs cfg else cmd);
                    workingDir = (if workingDir = [] then pwd else workingDir);
                    containerConfig =
                      \<lparr>cc_Image = image, cc_Cmd = cmd, cc_Entrypoint = entrypoint,
                       cc_WorkingDir = workingDir, cc_Env = env_list, cc_User = user,
                       cc_Tty = tty, cc_AttachStdin = stdinOpen, cc_AttachStdout = True,
                       cc_AttachStderr = True, cc_OpenStdin = stdinOpen\<rparr>;
                    hostConfig =
                      \<lparr>hc_Mounts = mounts, hc_AutoRemove = True, hc_Privileged = privileged,
                       hc_NetworkMode = networkMode\<rparr>;
                    create = CallContainerCreate containerConfig hostConfig
                in case ContainerCreate eng containerConfig hostConfig of
                     Inl e \<Rightarrow> ([create], Inl (ErrCreateContainer e))
                   | Inr containerID \<Rightarrow>
                       (case ContainerStart eng containerID of
                          Some e \<Rightarrow>
                            ([create, CallContainerStart containerID], Inl (ErrStartContainer e))
                        | None \<Rightarrow>
                            (let calls = [create, CallContainerStart containerID,
                                          CallContainerWait containerID]
                             in case ContainerWait eng containerID of
                                  Some e \<Rightarrow> (calls, Inl (ErrWaitContainer e))
                                | None \<Rightarrow>
                                    (calls,
                                     Inr \<lparr>res_Success = True, res_ContainerID = containerID,
                                          res_Image = image, res_WorkingDir = workingDir,
                                          res_Mounts =
                                            map (\<lambda>m. \<lparr>mi_Source = Source m,
                                                           mi_Target = Target m\<rparr>) mounts,
                                          res_GitRoot = gitRoot,
                                          res_ScriptPath = ScriptPath cfg,
                                          res_Message =
                                            ''Container executed successfully''\<rparr>))))))"

definition Run :: "engine \<Rightarrow> os_env \<Rightarrow> Config \<Rightarrow> engine_call list \<times> (error + Result)" where
  \<comment> \<open>The calls made to the engine, and the result or the error returned. The deferred
      \<open>Close\<close> of the client runs last and panics when it fails.\<close>
  "Run eng env cfg =
     (case NewClient eng of
        Some e \<Rightarrow> ([CallNewClient], Inl (ErrCreateClient e))
      | None \<Rightarrow>
          (let (calls, res) = run_container eng env cfg;
               calls = CallNewClient # calls @ [CallClose]
           in case ClientClose eng of
                Some e \<Rightarrow> (calls, Inl Panic)
              | None \<Rightarrow> (calls, res)))"

section \<open>The \<open>run\<close> command (\<open>internal/app/commands/run\<close>)\<close>

definition app_Action ::
  "engine \<Rightarrow> os_env \<Rightarrow> Config \<Rightarrow> engine_call list \<times> (error + Result)" where
  \<comment> \<open>\<open>app.Action\<close> with \<open>Run\<close> as its runner: the error of the runner is returned as it
      is. Writing the result out (\<open>app.Output\<close>) lies outside the model, which returns
      the result itself.\<close>
  "app_Action eng env cfg = Run eng env cfg"

definition script_config :: "os_env \<Rightarrow> up_parser \<Rightarrow> string list \<Rightarrow> (error + Config) option" where
  \<comment> \<open>The first part of \<open>action\<close>: the configuration of the script when the first
      argument is a file that parses as one, \<open>None\<close> when the command falls through to
      the flags. A panic of \<open>ParseFile\<close> is not an error it returns, and ends the command.\<close>
  "script_config env ParseDocument args =
     (if length args > 0 then
        (let firstArg = args ! 0
         in case Stat env firstArg of
              Inl _ \<Rightarrow> None
            | Inr info \<Rightarrow>
                if \<not> IsDir info then
                  (case ParseFile env ParseDocument firstArg of
                     Inl Panic \<Rightarrow> Some (Inl Panic)
                   | Inl _ \<Rightarrow> None
                   | Inr scriptCfg \<Rightarrow>
                       Some (Inr (scriptCfg\<lparr>ScriptPath := firstArg, ScriptArgs := drop 1 args\<rparr>)))
                else None)
      else None)"

definition action ::
  "engine \<Rightarrow> os_env \<Rightarrow> up_parser \<Rightarrow> Config \<Rightarrow> string list
     \<Rightarrow> Config \<times> engine_call list \<times> (error + Result)" where
  \<comment> \<open>\<open>action\<close>, given the package-level \<open>cfg\<close> the flags have filled and the positional
      arguments: the value of \<open>cfg\<close> afterwards, the calls made to the engine, and the
      outcome.\<close>
  "action eng env ParseDocument cfg args =
     (case script_config env ParseDocument args of
        Some (Inl e) \<Rightarrow> (cfg, [], Inl e)
      | Some (Inr scriptCfg) \<Rightarrow>
          (let (calls, res) = app_Action eng env scriptCfg in (cfg, calls, res))
      | None \<Rightarrow>
          (let cfg = cfg\<lparr>Command := Command cfg @ args\<rparr>
           in if Image cfg = [] then
                (cfg, [],
                 Inl (ExitError ''--image flag is required when not running as script interpreter'' 1))
              else (let (calls, res) = app_Action eng env cfg in (cfg, calls, res))))"

section \<open>Example hosts\<close>

text \<open>
  A host on which \<open>/home/u/proj\<close> is a linked worktree: its \<open>.git\<close> is a regular file
  that points into the store of the main repository. The working directory is a
  parameter. The engine answers every call with success.
\<close>

definition worktree_host :: "string \<Rightarrow> os_env" where
  "worktree_host pwd =
     \<lparr>Stat = (\<lambda>p. if p = ''/home/u/proj/.git'' then Inr \<lparr>IsDir = False\<rparr>
                    else if p \<in> set [''/'', ''/home'', ''/home/u'', ''/home/u/proj'', ''/home/u/proj/src'', ''/store'', ''/data'']
                    then Inr \<lparr>IsDir = True\<rparr> else Inl ErrNotExist),
      Open = (\<lambda>p. if p = ''/home/u/proj/.git''
                    then Inr \<lparr>ReadAll = Inr ''gitdir: /store/worktrees/feature-x\<newline>'', Close = None\<rparr>
                    else Inl ErrNotExist),
      Getwd = Inr pwd,
      UserHomeDir = Inr ''/home/u''\<rparr>"

definition engine_ok :: engine where
  "engine_ok =
     \<lparr>NewClient = None, ContainerCreate = (\<lambda>cc hc. Inr ''c0ffee''),
      ContainerStart = (\<lambda>id. None), ContainerWait = (\<lambda>id. None), ClientClose = None\<rparr>"

definition alpine_cfg :: Config where
  "alpine_cfg = zero_Config\<lparr>Image := ''alpine''\<rparr>"

definition plain_host :: "string \<Rightarrow> os_env" where
  \<comment> \<open>The same host with no repository: \<open>/home/u/proj/.git\<close> does not exist.\<close>
  "plain_host pwd =
     (worktree_host pwd)
       \<lparr>Stat := (\<lambda>p. if p = ''/home/u/proj/.git'' then Inl ErrNotExist
                      else Stat (worktree_host pwd) p)\<rparr>"

definition denied_host :: "string \<Rightarrow> os_env" where
  \<comment> \<open>The same host with a repository that cannot be probed: \<open>stat\<close> of
      \<open>/home/u/proj/.git\<close> fails with a permission error.\<close>
  "denied_host pwd =
     (worktree_host pwd)
       \<lparr>Stat := (\<lambda>p. if p = ''/home/u/proj/.git'' then Inl ErrPermission
                      else Stat (worktree_host pwd) p)\<rparr>"

definition gitfile_host :: "string \<Rightarrow> os_env" where
  \<comment> \<open>The same host, in \<open>/home/u/proj\<close>, with the given content in the \<open>.git\<close> file.\<close>
  "gitfile_host content =
     (worktree_host ''/home/u/proj'')
       \<lparr>Open := (\<lambda>p. if p = ''/home/u/proj/.git''
                      then Inr \<lparr>ReadAll = Inr content, Close = None\<rparr>
                      else Inl ErrNotExist)\<rparr>"

definition homeless_host :: "string \<Rightarrow> os_env" where
  \<comment> \<open>The same host for a user whose home directory cannot be determined.\<close>
  "homeless_host pwd = (worktree_host pwd)\<lparr>UserHomeDir := Inl ErrOther\<rparr>"

definition script_host :: os_env where
  \<comment> \<open>The host of the worktree, in \<open>/home/u/proj/src\<close>, with a launch script \<open>job.up\<close>.\<close>
  "script_host =
     (worktree_host ''/home/u/proj/src'')
       \<lparr>Stat := (\<lambda>p. if p = ''job.up'' then Inr \<lparr>IsDir = False\<rparr>
                      else Stat (worktree_host ''/home/u/proj/src'') p),
        Open := (\<lambda>p. if p = ''job.up''
                      then Inr \<lparr>ReadAll = Inr ''#!/usr/bin/env vsl\<newline>image alpine\<newline>command [echo, hi]\<newline>'',
                                Close = None\<rparr>
                      else Open (worktree_host ''/home/u/proj/src'') p)\<rparr>"

definition up_example :: up_parser where
  \<comment> \<open>A parser that knows one document, the body of \<open>job.up\<close>, and rejects the rest.\<close>
  "up_example doc =
     (if doc = ''image alpine\<newline>command [echo, hi]\<newline>''
      then Inr [Node ''image'' (UString ''alpine''),
                Node ''command'' (UList [UString ''echo'', UString ''hi''])]
      else Inl ''syntax error'')"

definition flags_cfg :: Config where
  \<comment> \<open>What the flags \<open>--image ubuntu --no-git --user root\<close> leave in the package-level \<open>cfg\<close>.\<close>
  "flags_cfg = zero_Config\<lparr>Image := ''ubuntu'', NoGit := True, User := ''root'', Interactive := True\<rparr>"

section \<open>Properties\<close>

subsection \<open>The bindings of a launch\<close>

lemma FindRoot_start_or_nonempty:
  "FindRoot env dir = Inr root \<Longrightarrow> root = dir \<or> root \<noteq> []"
proof (induction env dir rule: FindRoot.induct)
  case (1 env dir)
  show ?case
  proof (cases "Stat env (filepath_Join [dir, ''.git''])")
    case (Inr info)
    with "1.prems" show ?thesis by (simp add: FindRoot.simps [of env dir])
  next
    case (Inl e)
    show ?thesis
    proof (cases "Dir dir = dir")
      case True
      with Inl "1.prems" show ?thesis by (simp add: FindRoot.simps [of env dir])
    next
      case False
      with Inl "1.prems" have r: "FindRoot env (Dir dir) = Inr root"
        by (simp add: FindRoot.simps [of env dir])
      have "root = Dir dir \<or> root \<noteq> []"
        using "1.IH" [OF Inl refl False r] .
      moreover have "Dir dir \<noteq> []" by (simp add: Dir_def)
      ultimately show ?thesis by auto
    qed
  qed
qed

lemma base_mounts_cases:
  assumes "base_mounts env cfg pwd = Inr (mounts, gitRoot)"
  shows "(mounts = [bind_mount pwd pwd] \<and> gitRoot = []
            \<and> (NoGit cfg \<or> (\<forall>root. FindRoot env pwd = Inr root \<longrightarrow> root = pwd)))
       \<or> (\<exists>root. \<not> NoGit cfg \<and> FindRoot env pwd = Inr root \<and> root \<noteq> pwd \<and> gitRoot = root
            \<and> (case FindRealGitDir env root of
                  Inr g \<Rightarrow> mounts = [bind_mount pwd pwd, bind_mount root root]
                              @ (if g \<noteq> [] \<and> g \<noteq> filepath_Join [root, ''.git'']
                                 then [bind_mount g (filepath_Join [root, ''.git''])] else [])
                | Inl e \<Rightarrow> e \<noteq> Panic \<and> mounts = [bind_mount pwd pwd, bind_mount root root]))"
proof (cases "NoGit cfg")
  case True
  with assms show ?thesis by (simp add: base_mounts_def)
next
  case False
  show ?thesis
  proof (cases "FindRoot env pwd")
    case (Inl e)
    with assms False show ?thesis by (simp add: base_mounts_def)
  next
    case (Inr root)
    show ?thesis
    proof (cases "root = pwd")
      case True
      with assms False Inr show ?thesis by (simp add: base_mounts_def)
    next
      case neq: False
      then have "root \<noteq> []" using FindRoot_start_or_nonempty [OF Inr] by simp
      with assms False Inr neq show ?thesis
        by (auto simp: base_mounts_def Let_def split: sum.splits error.splits if_splits)
    qed
  qed
qed

lemma run_container_create:
  assumes "CallContainerCreate cc hc \<in> set (fst (run_container eng env cfg))"
  shows "\<exists>pwd gitRoot. Getwd env = Inr pwd
           \<and> base_mounts env cfg pwd = Inr (hc_Mounts hc, gitRoot)
           \<and> cc_Image cc = Image cfg
           \<and> cc_Cmd cc = Command cfg @ (if ScriptPath cfg \<noteq> [] then ScriptArgs cfg else [])"
  using assms
  by (auto simp: run_container_def Let_def split: sum.splits option.splits prod.splits if_splits)

lemma Run_create:
  assumes "CallContainerCreate cc hc \<in> set (fst (Run eng env cfg))"
  shows "\<exists>pwd gitRoot. Getwd env = Inr pwd
           \<and> base_mounts env cfg pwd = Inr (hc_Mounts hc, gitRoot)
           \<and> cc_Image cc = Image cfg
           \<and> cc_Cmd cc = Command cfg @ (if ScriptPath cfg \<noteq> [] then ScriptArgs cfg else [])"
proof -
  from assms have "CallContainerCreate cc hc \<in> set (fst (run_container eng env cfg))"
    by (auto simp: Run_def Let_def split: option.splits prod.splits)
  then show ?thesis by (rule run_container_create)
qed

text \<open>
  C10. In every launch specification handed to the execution engine, the bindings come in
  a fixed order: the self-mount of the working directory is the first element; the
  self-mount of the repository root, when present, is the second; the binding of the
  metadata directory, when present, is the last.
\<close>

theorem binding_order:
  assumes "CallContainerCreate cc hc \<in> set (fst (Run eng env cfg))"
  shows "\<exists>pwd. Getwd env = Inr pwd \<and> hd (hc_Mounts hc) = bind_mount pwd pwd \<and>
           (hc_Mounts hc = [bind_mount pwd pwd] \<or>
            (\<exists>root. FindRoot env pwd = Inr root \<and>
               (hc_Mounts hc = [bind_mount pwd pwd, bind_mount root root] \<or>
                (\<exists>g. FindRealGitDir env root = Inr g \<and>
                   hc_Mounts hc = [bind_mount pwd pwd, bind_mount root root,
                                   bind_mount g (filepath_Join [root, ''.git''])]))))"
proof -
  from Run_create [OF assms] obtain pwd gitRoot where
    wd: "Getwd env = Inr pwd" and bm: "base_mounts env cfg pwd = Inr (hc_Mounts hc, gitRoot)"
    by blast
  from base_mounts_cases [OF bm] show ?thesis
  proof
    assume "hc_Mounts hc = [bind_mount pwd pwd] \<and> gitRoot = []
              \<and> (NoGit cfg \<or> (\<forall>root. FindRoot env pwd = Inr root \<longrightarrow> root = pwd))"
    with wd show ?thesis by simp
  next
    assume "\<exists>root. \<not> NoGit cfg \<and> FindRoot env pwd = Inr root \<and> root \<noteq> pwd \<and> gitRoot = root
            \<and> (case FindRealGitDir env root of
                  Inr g \<Rightarrow> hc_Mounts hc = [bind_mount pwd pwd, bind_mount root root]
                              @ (if g \<noteq> [] \<and> g \<noteq> filepath_Join [root, ''.git'']
                                 then [bind_mount g (filepath_Join [root, ''.git''])] else [])
                | Inl e \<Rightarrow> e \<noteq> Panic \<and> hc_Mounts hc = [bind_mount pwd pwd, bind_mount root root])"
    then obtain root where fr: "FindRoot env pwd = Inr root"
      and c: "case FindRealGitDir env root of
                  Inr g \<Rightarrow> hc_Mounts hc = [bind_mount pwd pwd, bind_mount root root]
                              @ (if g \<noteq> [] \<and> g \<noteq> filepath_Join [root, ''.git'']
                                 then [bind_mount g (filepath_Join [root, ''.git''])] else [])
                | Inl e \<Rightarrow> e \<noteq> Panic \<and> hc_Mounts hc = [bind_mount pwd pwd, bind_mount root root]"
      by blast
    show ?thesis
    proof (cases "FindRealGitDir env root")
      case (Inl e)
      with c wd fr show ?thesis by simp
    next
      case (Inr g)
      with c wd fr show ?thesis by (cases "g \<noteq> [] \<and> g \<noteq> filepath_Join [root, ''.git'']") auto
    qed
  qed
qed

theorem binding_order_witness:
  "CallContainerCreate
     \<lparr>cc_Image = ''alpine'', cc_Cmd = [], cc_Entrypoint = [],
      cc_WorkingDir = ''/home/u/proj/src'', cc_Env = [], cc_User = [], cc_Tty = False,
      cc_AttachStdin = False, cc_AttachStdout = True, cc_AttachStderr = True,
      cc_OpenStdin = False\<rparr>
     \<lparr>hc_Mounts = [bind_mount ''/home/u/proj/src'' ''/home/u/proj/src'',
                   bind_mount ''/home/u/proj'' ''/home/u/proj'',
                   bind_mount ''/store'' ''/home/u/proj/.git''],
      hc_AutoRemove = True, hc_Privileged = False, hc_NetworkMode = []\<rparr>
     \<in> set (fst (Run engine_ok (worktree_host ''/home/u/proj/src'') alpine_cfg))
   \<and> Getwd (worktree_host ''/home/u/proj/src'') = Inr ''/home/u/proj/src''
   \<and> FindRoot (worktree_host ''/home/u/proj/src'') ''/home/u/proj/src'' = Inr ''/home/u/proj''
   \<and> FindRealGitDir (worktree_host ''/home/u/proj/src'') ''/home/u/proj'' = Inr ''/store''"
proof -
  let ?cc = "\<lparr>cc_Image = ''alpine'', cc_Cmd = [], cc_Entrypoint = [],
      cc_WorkingDir = ''/home/u/proj/src'', cc_Env = [], cc_User = [], cc_Tty = False,
      cc_AttachStdin = False, cc_AttachStdout = True, cc_AttachStderr = True,
      cc_OpenStdin = False\<rparr>"
  let ?hc = "\<lparr>hc_Mounts = [bind_mount ''/home/u/proj/src'' ''/home/u/proj/src'',
                   bind_mount ''/home/u/proj'' ''/home/u/proj'',
                   bind_mount ''/store'' ''/home/u/proj/.git''],
      hc_AutoRemove = True, hc_Privileged = False, hc_NetworkMode = []\<rparr>"
  have h: "CallContainerCreate ?cc ?hc
             \<in> set (fst (Run engine_ok (worktree_host ''/home/u/proj/src'') alpine_cfg))"
    by code_simp
  have wd: "Getwd (worktree_host ''/home/u/proj/src'') = Inr ''/home/u/proj/src''"
    by (simp add: worktree_host_def)
  from binding_order [OF h] wd
  have "\<exists>root. FindRoot (worktree_host ''/home/u/proj/src'') ''/home/u/proj/src'' = Inr root \<and>
          (\<exists>g. FindRealGitDir (worktree_host ''/home/u/proj/src'') root = Inr g \<and>
            root = ''/home/u/proj'' \<and> g = ''/store'')"
    by (auto simp: bind_mount_def)
  with h wd show ?thesis by auto
qed

lemma base_mounts_error: "base_mounts env cfg pwd = Inl e \<Longrightarrow> e = Panic"
  by (auto simp: base_mounts_def Let_def split: sum.splits error.splits if_splits)

text \<open>
  C4 (as amended). The default bindings always start with a self-mount of the working
  directory. When discovery is enabled and finds a repository root that differs from the
  working directory, a second self-mount of the root is added; in that case only, when
  the metadata directory resolves without error to a non-empty path other than
  \<open><root>/.git\<close>, a third binding maps the metadata directory to that path. When
  discovery is disabled, finds nothing, or finds the working directory itself, the
  self-mount of the working directory is the only binding.
\<close>

theorem default_bindings:
  assumes "base_mounts env cfg pwd = Inr (mounts, gitRoot)"
  shows "hd mounts = bind_mount pwd pwd
       \<and> (\<forall>root. \<not> NoGit cfg \<and> FindRoot env pwd = Inr root \<and> root \<noteq> pwd \<longrightarrow>
             take 2 mounts = [bind_mount pwd pwd, bind_mount root root]
             \<and> (\<forall>g. FindRealGitDir env root = Inr g \<longrightarrow>
                   mounts = [bind_mount pwd pwd, bind_mount root root]
                     @ (if g \<noteq> [] \<and> g \<noteq> filepath_Join [root, ''.git'']
                        then [bind_mount g (filepath_Join [root, ''.git''])] else [])))
       \<and> (NoGit cfg \<or> (\<forall>root. FindRoot env pwd = Inr root \<longrightarrow> root = pwd) \<longrightarrow>
             mounts = [bind_mount pwd pwd])"
  using base_mounts_cases [OF assms]
  by (auto split: sum.splits)

theorem default_bindings_witness:
  "base_mounts (worktree_host ''/home/u/proj/src'') alpine_cfg ''/home/u/proj/src''
     = Inr ([bind_mount ''/home/u/proj/src'' ''/home/u/proj/src'',
             bind_mount ''/home/u/proj'' ''/home/u/proj'',
             bind_mount ''/store'' ''/home/u/proj/.git''], ''/home/u/proj'')
   \<and> \<not> NoGit alpine_cfg
   \<and> FindRoot (worktree_host ''/home/u/proj/src'') ''/home/u/proj/src'' = Inr ''/home/u/proj''
   \<and> FindRealGitDir (worktree_host ''/home/u/proj/src'') ''/home/u/proj'' = Inr ''/store''
   \<and> filepath_Join [''/home/u/proj'', ''.git''] = ''/home/u/proj/.git''
   \<and> [bind_mount ''/home/u/proj/src'' ''/home/u/proj/src'',
       bind_mount ''/home/u/proj'' ''/home/u/proj'',
       bind_mount ''/store'' ''/home/u/proj/.git'']
     = [bind_mount ''/home/u/proj/src'' ''/home/u/proj/src'',
        bind_mount ''/home/u/proj'' ''/home/u/proj'']
       @ (if ''/store'' \<noteq> [] \<and> ''/store'' \<noteq> filepath_Join [''/home/u/proj'', ''.git'']
          then [bind_mount ''/store'' (filepath_Join [''/home/u/proj'', ''.git''])] else [])"
proof -
  let ?env = "worktree_host ''/home/u/proj/src''"
  let ?ms = "[bind_mount ''/home/u/proj/src'' ''/home/u/proj/src'',
             bind_mount ''/home/u/proj'' ''/home/u/proj'',
             bind_mount ''/store'' ''/home/u/proj/.git'']"
  have bm: "base_mounts ?env alpine_cfg ''/home/u/proj/src'' = Inr (?ms, ''/home/u/proj'')"
    by code_simp
  have ng: "\<not> NoGit alpine_cfg" by code_simp
  have fr: "FindRoot ?env ''/home/u/proj/src'' = Inr ''/home/u/proj''" by code_simp
  have fg: "FindRealGitDir ?env ''/home/u/proj'' = Inr ''/store''" by code_simp
  have j: "filepath_Join [''/home/u/proj'', ''.git''] = ''/home/u/proj/.git''" by code_simp
  have ne: "''/home/u/proj'' \<noteq> ''/home/u/proj/src''" by simp
  from default_bindings [OF bm]
  have "\<forall>root. \<not> NoGit alpine_cfg \<and> FindRoot ?env ''/home/u/proj/src'' = Inr root
            \<and> root \<noteq> ''/home/u/proj/src'' \<longrightarrow>
          take 2 ?ms = [bind_mount ''/home/u/proj/src'' ''/home/u/proj/src'', bind_mount root root]
          \<and> (\<forall>g. FindRealGitDir ?env root = Inr g \<longrightarrow>
                ?ms = [bind_mount ''/home/u/proj/src'' ''/home/u/proj/src'', bind_mount root root]
                  @ (if g \<noteq> [] \<and> g \<noteq> filepath_Join [root, ''.git'']
                     then [bind_mount g (filepath_Join [root, ''.git''])] else []))"
    by (elim conjE)
  then have "\<forall>g. FindRealGitDir ?env ''/home/u/proj'' = Inr g \<longrightarrow>
                ?ms = [bind_mount ''/home/u/proj/src'' ''/home/u/proj/src'',
                       bind_mount ''/home/u/proj'' ''/home/u/proj'']
                  @ (if g \<noteq> [] \<and> g \<noteq> filepath_Join [''/home/u/proj'', ''.git'']
                     then [bind_mount g (filepath_Join [''/home/u/proj'', ''.git''])] else [])"
    using ng fr ne by (elim allE [of _ "''/home/u/proj''"] impE) (intro conjI, assumption+, elim conjE, assumption)
  then have third: "?ms = [bind_mount ''/home/u/proj/src'' ''/home/u/proj/src'',
                       bind_mount ''/home/u/proj'' ''/home/u/proj'']
                  @ (if ''/store'' \<noteq> [] \<and> ''/store'' \<noteq> filepath_Join [''/home/u/proj'', ''.git'']
                     then [bind_mount ''/store'' (filepath_Join [''/home/u/proj'', ''.git''])]
                     else [])"
    using fg by (elim allE [of _ "''/store''"] impE)
  show ?thesis using bm ng fr fg j third by (intro conjI)
qed

text \<open>
  The claim as first stated fails in a linked worktree whose root is the working
  directory: the metadata directory resolves to \<open>/store\<close>, which is not
  \<open>/home/u/proj/.git\<close>, and yet no third binding is made.
\<close>

theorem default_bindings_counterexample:
  "FindRoot (worktree_host ''/home/u/proj'') ''/home/u/proj'' = Inr ''/home/u/proj''
   \<and> FindRealGitDir (worktree_host ''/home/u/proj'') ''/home/u/proj'' = Inr ''/store''
   \<and> ''/store'' \<noteq> filepath_Join [''/home/u/proj'', ''.git'']
   \<and> base_mounts (worktree_host ''/home/u/proj'') alpine_cfg ''/home/u/proj''
        = Inr ([bind_mount ''/home/u/proj'' ''/home/u/proj''], [])"
  by code_simp

subsection \<open>Locating the repository\<close>

lemma FindRoot_found:
  assumes "(Dir ^^ n) D = A"
    and "\<forall>k<n. isl (Stat env (filepath_Join [(Dir ^^ k) D, ''.git'']))"
    and "\<not> isl (Stat env (filepath_Join [A, ''.git'']))"
  shows "FindRoot env D = Inr A"
  using assms
proof (induction n arbitrary: D)
  case 0
  then have "D = A" by simp
  with "0.prems"(3) show ?case
    by (cases "Stat env (filepath_Join [A, ''.git''])") (simp_all add: FindRoot.simps [of env A])
next
  case (Suc n)
  from Suc.prems(2) have here: "isl (Stat env (filepath_Join [D, ''.git'']))"
    by (metis funpow_0 zero_less_Suc)
  have moved: "Dir D \<noteq> D"
  proof
    assume stuck: "Dir D = D"
    have still: "(Dir ^^ k) D = D" for k by (induction k) (simp_all add: stuck)
    have "A = D" by (rule trans [OF Suc.prems(1) [symmetric] still])
    with here Suc.prems(3) show False by simp
  qed
  have "FindRoot env (Dir D) = Inr A"
  proof (rule Suc.IH)
    show "(Dir ^^ n) (Dir D) = A" using Suc.prems(1) by (simp add: funpow_swap1)
    show "\<forall>k<n. isl (Stat env (filepath_Join [(Dir ^^ k) (Dir D), ''.git'']))"
    proof (intro allI impI)
      fix k assume "k < n"
      then have "isl (Stat env (filepath_Join [(Dir ^^ Suc k) D, ''.git'']))"
        using Suc.prems(2) by (meson Suc_less_eq)
      then show "isl (Stat env (filepath_Join [(Dir ^^ k) (Dir D), ''.git'']))"
        by (simp add: funpow_swap1)
    qed
    show "\<not> isl (Stat env (filepath_Join [A, ''.git'']))" by (rule Suc.prems(3))
  qed
  with here moved show ?case
    by (cases "Stat env (filepath_Join [D, ''.git''])") (simp_all add: FindRoot.simps [of env D])
qed

lemma FindRoot_none:
  assumes "\<forall>k. isl (Stat env (filepath_Join [(Dir ^^ k) D, ''.git'']))"
  shows "FindRoot env D = Inl ErrNoGitRepository"
  using assms
proof (induction env D rule: FindRoot.induct)
  case (1 env dir)
  from "1.prems" have "isl (Stat env (filepath_Join [dir, ''.git'']))"
    by (metis funpow_0)
  then obtain e where here: "Stat env (filepath_Join [dir, ''.git'']) = Inl e"
    by (cases "Stat env (filepath_Join [dir, ''.git''])") auto
  show ?case
  proof (cases "Dir dir = dir")
    case True
    with here show ?thesis by (simp add: FindRoot.simps [of env dir])
  next
    case False
    have "\<forall>k. isl (Stat env (filepath_Join [(Dir ^^ k) (Dir dir), ''.git'']))"
    proof
      fix k
      from "1.prems" have "isl (Stat env (filepath_Join [(Dir ^^ Suc k) dir, ''.git'']))"
        by blast
      then show "isl (Stat env (filepath_Join [(Dir ^^ k) (Dir dir), ''.git'']))"
        by (simp add: funpow_swap1)
    qed
    then have "FindRoot env (Dir dir) = Inl ErrNoGitRepository"
      using "1.IH" [OF here refl False] by simp
    with here False show ?thesis by (simp add: FindRoot.simps [of env dir])
  qed
qed

text \<open>
  For ordinary paths \<open>Dir\<close> is the parent directory: below a clean path \<open>A\<close>, going down
  through names and then up as many times leads back to \<open>A\<close>.
\<close>

lemma Clean_trailing_separator:
  assumes "A \<noteq> []"
  shows "Clean (A @ ''/'') = Clean A"
proof -
  have e: "foldl (clean_step r) [] (path_elements (A @ ''/''))
             = foldl (clean_step r) [] (path_elements A)" for r
    by (simp add: path_elements_snoc)
  have h: "hd (A @ ''/'') = hd A" using assms by simp
  show ?thesis using assms by (simp add: Clean_def e h del: path_elements.simps)
qed

lemma dir_prefix_child:
  assumes "CHR ''/'' \<notin> set c"
  shows "rev (dropWhile (\<lambda>x. x \<noteq> CHR ''/'') (rev (A @ ''/'' @ c))) = A @ ''/''"
proof -
  have "dropWhile (\<lambda>x. x \<noteq> CHR ''/'') (rev c @ CHR ''/'' # rev A) = CHR ''/'' # rev A"
    using assms by (subst dropWhile_append2) auto
  then show ?thesis by simp
qed

lemma Dir_child:
  assumes "Clean A = A" and "CHR ''/'' \<notin> set c"
  shows "Dir (A @ ''/'' @ c) = A"
proof -
  from assms(1) have "A \<noteq> []" using Clean_ne [of A] by auto
  then have "Clean (A @ ''/'') = A" using assms(1) by (simp add: Clean_trailing_separator)
  moreover have "Dir (A @ ''/'' @ c) = Clean (A @ ''/'')"
    unfolding Dir_def using dir_prefix_child [OF assms(2), of A] by simp
  ultimately show ?thesis by simp
qed

lemma path_elements_name: "CHR ''/'' \<notin> set c \<Longrightarrow> path_elements c = [c]"
  by (induction c) auto

lemma path_elements_append:
  "path_elements (a @ CHR ''/'' # b) = path_elements a @ path_elements b"
  by (induction a) (auto split: list.splits)

lemma strings_Join_snoc:
  "xs \<noteq> [] \<Longrightarrow> strings_Join (xs @ [c]) sep = strings_Join xs sep @ sep @ c"
  by (induction xs sep rule: strings_Join.induct) auto

lemma Clean_child:
  assumes "Clean A = A" and "A \<noteq> ''/''" and "A \<noteq> ''.''"
    and "CHR ''/'' \<notin> set c" and "c \<noteq> []" and "c \<noteq> ''.''" and "c \<noteq> ''..''"
  shows "Clean (A @ ''/'' @ c) = A @ ''/'' @ c"
proof -
  define r where "r = (hd A = CHR ''/'')"
  define out where "out = foldl (clean_step r) [] (path_elements A)"
  define pre where "pre = (if r then ''/'' else [])"
  from assms(1) have ne: "A \<noteq> []" using Clean_ne [of A] by auto
  have "Clean A = (if pre @ strings_Join (rev out) ''/'' = [] then ''.''
                   else pre @ strings_Join (rev out) ''/'')"
    using ne by (simp add: Clean_def r_def out_def pre_def Let_def)
  with assms(1,3) have A: "A = pre @ strings_Join (rev out) ''/''"
    by (metis (full_types))
  have "out \<noteq> []"
  proof
    assume "out = []"
    with A have "A = pre" by simp
    with ne assms(2) show False by (simp add: pre_def split: if_splits)
  qed
  have "path_elements (A @ ''/'' @ c) = path_elements A @ [c]"
    using path_elements_append [of A c] assms(4) by (simp add: path_elements_name)
  then have "foldl (clean_step r) [] (path_elements (A @ ''/'' @ c)) = c # out"
    using assms(5,6,7) by (simp add: out_def clean_step_def)
  moreover have "hd (A @ ''/'' @ c) = hd A" using ne by simp
  ultimately have "Clean (A @ ''/'' @ c)
      = (if pre @ strings_Join (rev (c # out)) ''/'' = [] then ''.''
         else pre @ strings_Join (rev (c # out)) ''/'')"
    by (simp add: Clean_def r_def pre_def Let_def del: path_elements.simps)
  moreover have "strings_Join (rev (c # out)) ''/'' = strings_Join (rev out) ''/'' @ ''/'' @ c"
    using \<open>out \<noteq> []\<close> by (simp add: strings_Join_snoc)
  ultimately show ?thesis using A by simp
qed

lemma Dir_descend:
  assumes "Clean A = A" and "A \<noteq> ''/''" and "A \<noteq> ''.''" and "\<forall>c\<in>set cs. name_ok c"
  shows "(Dir ^^ length cs) (descend A cs) = A
       \<and> Clean (descend A cs) = descend A cs
       \<and> descend A cs \<noteq> ''/'' \<and> descend A cs \<noteq> ''.''"
  using assms(4)
proof (induction cs rule: rev_induct)
  case Nil
  with assms show ?case by (simp add: descend_def)
next
  case (snoc c cs)
  let ?P = "descend A cs"
  from snoc have P: "(Dir ^^ length cs) ?P = A" "Clean ?P = ?P" "?P \<noteq> ''/''" "?P \<noteq> ''.''"
    and c: "name_ok c" by simp_all
  have d: "descend A (cs @ [c]) = ?P @ ''/'' @ c" by (simp add: descend_def)
  from c have slash: "CHR ''/'' \<notin> set c" by (simp add: name_ok_def)
  have "Dir (?P @ ''/'' @ c) = ?P" by (rule Dir_child [OF P(2) slash])
  then have "(Dir ^^ length (cs @ [c])) (descend A (cs @ [c])) = A"
    using P(1) by (simp add: d funpow_swap1)
  moreover have "Clean (?P @ ''/'' @ c) = ?P @ ''/'' @ c"
    using c by (intro Clean_child P) (simp_all add: name_ok_def)
  moreover from P(2) have "?P \<noteq> []" using Clean_ne [of ?P] by auto
  then have "?P @ ''/'' @ c \<noteq> ''/''" "?P @ ''/'' @ c \<noteq> ''.''" by (cases ?P; simp)+
  ultimately show ?case by (simp add: d)
qed

lemma descend_append: "descend A (cs @ ds) = descend (descend A cs) ds"
  by (simp add: descend_def)

lemma Dir_descend_take:
  assumes "Clean A = A" and "A \<noteq> ''/''" and "A \<noteq> ''.''" and "\<forall>c\<in>set cs. name_ok c"
    and "k \<le> length cs"
  shows "(Dir ^^ k) (descend A cs) = descend A (take (length cs - k) cs)"
proof -
  let ?m = "length cs - k"
  let ?B = "descend A (take ?m cs)"
  have "\<forall>c\<in>set (take ?m cs). name_ok c" using assms(4) by (meson in_set_takeD)
  from Dir_descend [OF assms(1-3) this]
  have B: "Clean ?B = ?B" "?B \<noteq> ''/''" "?B \<noteq> ''.''" by simp_all
  have "\<forall>c\<in>set (drop ?m cs). name_ok c" using assms(4) by (meson in_set_dropD)
  from Dir_descend [OF B this]
  have "(Dir ^^ length (drop ?m cs)) (descend ?B (drop ?m cs)) = ?B" by simp
  moreover have "descend ?B (drop ?m cs) = descend A cs"
    using descend_append [of A "take ?m cs" "drop ?m cs"] by simp
  moreover have "length (drop ?m cs) = k" using assms(5) by simp
  ultimately show ?thesis by simp
qed

lemma FindRoot_descendant:
  assumes "Clean A = A" and "A \<noteq> ''/''" and "A \<noteq> ''.''" and "\<forall>c\<in>set cs. name_ok c"
    and "\<forall>j. 0 < j \<and> j \<le> length cs \<longrightarrow>
           isl (Stat env (filepath_Join [descend A (take j cs), ''.git'']))"
    and "\<not> isl (Stat env (filepath_Join [A, ''.git'']))"
  shows "FindRoot env (descend A cs) = Inr A"
proof (rule FindRoot_found [where n = "length cs"])
  show "(Dir ^^ length cs) (descend A cs) = A"
    using Dir_descend [OF assms(1-4)] by simp
  show "\<forall>k<length cs. isl (Stat env (filepath_Join [(Dir ^^ k) (descend A cs), ''.git'']))"
  proof (intro allI impI)
    fix k assume k: "k < length cs"
    then have "(Dir ^^ k) (descend A cs) = descend A (take (length cs - k) cs)"
      using Dir_descend_take [OF assms(1-4), of k] by simp
    moreover from k have "0 < length cs - k \<and> length cs - k \<le> length cs" by simp
    ultimately show "isl (Stat env (filepath_Join [(Dir ^^ k) (descend A cs), ''.git'']))"
      using assms(5) by simp
  qed
  show "\<not> isl (Stat env (filepath_Join [A, ''.git'']))" by (rule assms(6))
qed



lemma FindRoot_error: "FindRoot env d = Inl e \<Longrightarrow> e = ErrNoGitRepository"
proof (induction env d rule: FindRoot.induct)
  case (1 env dir)
  show ?case
  proof (cases "Stat env (filepath_Join [dir, ''.git''])")
    case (Inr info)
    with "1.prems" show ?thesis by (simp add: FindRoot.simps [of env dir])
  next
    case (Inl x)
    show ?thesis
    proof (cases "Dir dir = dir")
      case True
      with Inl "1.prems" show ?thesis by (simp add: FindRoot.simps [of env dir])
    next
      case False
      with Inl "1.prems" have "FindRoot env (Dir dir) = Inl e"
        by (simp add: FindRoot.simps [of env dir])
      with "1.IH" [OF Inl refl False] show ?thesis by simp
    qed
  qed
qed

lemma FindRoot_cong:
  assumes "\<forall>p. isl (Stat env p) = isl (Stat env' p)"
  shows "FindRoot env d = FindRoot env' d"
  using assms
proof (induction env d rule: FindRoot.induct)
  case (1 env dir)
  let ?git = "filepath_Join [dir, ''.git'']"
  show ?case
  proof (cases "Stat env ?git")
    case (Inr info)
    with "1.prems" have "\<not> isl (Stat env' ?git)" by (metis sum.disc(2))
    then obtain info' where "Stat env' ?git = Inr info'" by (cases "Stat env' ?git") auto
    with Inr show ?thesis
      by (simp add: FindRoot.simps [of env dir] FindRoot.simps [of env' dir])
  next
    case (Inl x)
    with "1.prems" have "isl (Stat env' ?git)" by (metis sum.disc(1))
    then obtain x' where Inl': "Stat env' ?git = Inl x'" by (cases "Stat env' ?git") auto
    show ?thesis
    proof (cases "Dir dir = dir")
      case True
      with Inl Inl' show ?thesis
        by (simp add: FindRoot.simps [of env dir] FindRoot.simps [of env' dir])
    next
      case False
      have "FindRoot env (Dir dir) = FindRoot env' (Dir dir)"
        using "1.IH" [OF Inl refl False "1.prems"] .
      with Inl Inl' False show ?thesis
        by (simp add: FindRoot.simps [of env dir] FindRoot.simps [of env' dir])
    qed
  qed
qed

text \<open>
  C3 (as amended). For every start directory, a failure to stat the metadata marker is
  handled in one way whatever its kind (the marker is absent, permission is denied, an
  I/O error): there is no marker here, and the walk goes on to the parent. The only
  failure \<open>FindRoot\<close> reports is the not-found error, and its outcome depends on which
  stats succeed, never on the error of one that fails.
\<close>

theorem FindRoot_stat_errors_alike:
  "(FindRoot env d = Inl e \<longrightarrow> e = ErrNoGitRepository)
   \<and> ((\<forall>p. isl (Stat env p) = isl (Stat env' p)) \<longrightarrow> FindRoot env d = FindRoot env' d)"
  using FindRoot_error FindRoot_cong by blast

theorem FindRoot_stat_errors_alike_witness:
  "FindRoot (plain_host ''/home/u/proj/src'') ''/home/u/proj/src'' = Inl ErrNoGitRepository
   \<and> FindRoot (denied_host ''/home/u/proj/src'') ''/home/u/proj/src''
       = FindRoot (plain_host ''/home/u/proj/src'') ''/home/u/proj/src''"
proof -
  let ?plain = "plain_host ''/home/u/proj/src''"
  let ?denied = "denied_host ''/home/u/proj/src''"
  let ?d = "''/home/u/proj/src''"
  note w = FindRoot_stat_errors_alike [of ?denied ?d ErrNoGitRepository ?plain]
  have same: "\<forall>p. isl (Stat ?denied p) = isl (Stat ?plain p)"
    by (simp add: denied_host_def plain_host_def)
  have eq: "FindRoot ?denied ?d = FindRoot ?plain ?d"
    by (rule mp [OF conjunct2 [OF w] same])
  have "FindRoot ?plain ?d = Inl ErrNoGitRepository" by code_simp
  with eq show ?thesis by (intro conjI)
qed

text \<open>
  The claim as first stated fails where the marker of a repository cannot be probed: the
  stat of \<open>/home/u/proj/.git\<close> fails with a permission error, and \<open>FindRoot\<close> reports
  the very outcome it reports on the host that has no repository.
\<close>

theorem FindRoot_stat_errors_counterexample:
  "Stat (denied_host ''/home/u/proj/src'') (filepath_Join [''/home/u/proj'', ''.git''])
     = Inl ErrPermission
   \<and> FindRoot (denied_host ''/home/u/proj/src'') ''/home/u/proj/src'' = Inl ErrNoGitRepository
   \<and> Stat (plain_host ''/home/u/proj/src'') (filepath_Join [''/home/u/proj'', ''.git''])
     = Inl ErrNotExist
   \<and> FindRoot (plain_host ''/home/u/proj/src'') ''/home/u/proj/src'' = Inl ErrNoGitRepository"
  by code_simp

subsection \<open>Searching and cutting strings\<close>

lemma HasPrefix_append [simp]: "HasPrefix (sub @ b) sub"
  by (simp add: HasPrefix_def)

lemma HasPrefix_Nil [simp]: "HasPrefix s []"
  by (simp add: HasPrefix_def)

lemma Index_Some_split:
  "Index s sub = Some i \<Longrightarrow> s = take i s @ sub @ drop (i + length sub) s"
proof (induction s arbitrary: i)
  case Nil
  then show ?case by (simp split: if_splits)
next
  case (Cons x xs)
  show ?case
  proof (cases "HasPrefix (x # xs) sub")
    case True
    with Cons.prems have "i = 0" by simp
    moreover from True have "take (length sub) (x # xs) = sub" by (simp add: HasPrefix_def)
    then have "x # xs = sub @ drop (length sub) (x # xs)"
      by (metis append_take_drop_id)
    ultimately show ?thesis by simp
  next
    case False
    with Cons.prems obtain j where j: "Index xs sub = Some j" "i = Suc j" by auto
    from Cons.IH [OF j(1)] j(2) show ?thesis by simp
  qed
qed

lemma Index_Some_first:
  "Index s sub = Some i \<Longrightarrow> s = a @ sub @ b \<Longrightarrow> i \<le> length a"
proof (induction s arbitrary: i a)
  case Nil
  then show ?case by (simp split: if_splits)
next
  case (Cons x xs)
  show ?case
  proof (cases "HasPrefix (x # xs) sub")
    case True
    with Cons.prems(1) have "i = 0" by simp
    then show ?thesis by simp
  next
    case False
    with Cons.prems(1) obtain j where j: "Index xs sub = Some j" "i = Suc j" by auto
    from False Cons.prems(2) have "a \<noteq> []" by auto
    then obtain a' where a': "a = x # a'" "xs = a' @ sub @ b"
      using Cons.prems(2) by (cases a) auto
    from Cons.IH [OF j(1) a'(2)] j(2) a'(1) show ?thesis by simp
  qed
qed

lemma Index_None: "Index s sub = None \<Longrightarrow> s \<noteq> a @ sub @ b"
proof (induction s arbitrary: a)
  case Nil
  then show ?case by (simp split: if_splits)
next
  case (Cons x xs)
  from Cons.prems have no: "\<not> HasPrefix (x # xs) sub" and rest: "Index xs sub = None"
    by (auto split: if_splits)
  show ?case
  proof
    assume eq: "x # xs = a @ sub @ b"
    with no have "a \<noteq> []" by auto
    then obtain a' where "a = x # a'" "xs = a' @ sub @ b" using eq by (cases a) auto
    with Cons.IH [OF rest] show False by blast
  qed
qed

lemma Index_char_absent: "c \<notin> set s \<Longrightarrow> Index s [c] = None"
  by (induction s) (auto simp: HasPrefix_def)

lemma Index_char_first: "c \<notin> set a \<Longrightarrow> Index (a @ c # b) [c] = Some (length a)"
  by (induction a) (auto simp: HasPrefix_def)

lemma Split_char_absent: "c \<notin> set s \<Longrightarrow> Split s [c] = [s]"
  by (simp add: Split.simps [of s] Index_char_absent)

lemma Split_char_first: "c \<notin> set a \<Longrightarrow> Split (a @ c # b) [c] = a # Split b [c]"
  by (simp add: Split.simps [of "a @ c # b"] Index_char_first)

lemma Split_Join_char:
  "ls \<noteq> [] \<Longrightarrow> \<forall>l\<in>set ls. c \<notin> set l \<Longrightarrow> Split (strings_Join ls [c]) [c] = ls"
proof (induction ls "[c]" rule: strings_Join.induct)
  case 1
  then show ?case by simp
next
  case (2 x)
  then show ?case by (simp add: Split_char_absent)
next
  case (3 x y ys)
  then show ?case by (simp add: Split_char_first)
qed

lemma TrimSpace_leading_blank: "TrimSpace (CHR '' '' # p) = TrimSpace p"
proof -
  have "leading_space (CHR '' '' # p) = 1"
    by (simp add: leading_space_def space_seqs_def HasPrefix_def)
  then have "TrimLeftSpace (CHR '' '' # p) = TrimLeftSpace p"
    by (simp add: TrimLeftSpace.simps [of "CHR '' '' # p"])
  then show ?thesis by (simp add: TrimSpace_def)
qed

lemma gitdir_of_lines_skip:
  "\<forall>l\<in>set before. \<not> HasPrefix l ''gitdir: '' \<Longrightarrow>
   gitdir_of_lines gitPath (before @ ls) = gitdir_of_lines gitPath ls"
  by (induction before) auto

subsection \<open>Resolving the metadata directory\<close>

lemma gitdir_of_lines_hit:
  assumes "TrimSpace p = p"
  shows "gitdir_of_lines gitPath ((''gitdir: '' @ p) # after)
           = (case Index p ''/worktrees/'' of None \<Rightarrow> p | Some i \<Rightarrow> take i p)"
proof -
  have pre: "HasPrefix (''gitdir: '' @ p) ''gitdir: ''" by (rule HasPrefix_append)
  have "HasPrefix (''gitdir:'' @ CHR '' '' # p) ''gitdir:''" by (rule HasPrefix_append)
  then have "TrimPrefix (''gitdir: '' @ p) ''gitdir:'' = CHR '' '' # p"
    by (simp add: TrimPrefix_def)
  then have tr: "TrimSpace (TrimPrefix (''gitdir: '' @ p) ''gitdir:'') = p"
    using assms by (simp only: TrimSpace_leading_blank)
  show ?thesis
  proof (cases "Index p ''/worktrees/''")
    case None
    then have "\<not> Contains p ''/worktrees/''" by (simp add: Contains_def)
    with pre tr show ?thesis
      by (simp only: gitdir_of_lines.simps Let_def None if_True if_False option.case)
  next
    case (Some i)
    then have c: "Contains p ''/worktrees/''" by (simp add: Contains_def)
    have sp: "Split p ''/worktrees/''
                = take i p # Split (drop (i + length ''/worktrees/'') p) ''/worktrees/''"
      using Some by (subst Split.simps) simp
    have "length (Split p ''/worktrees/'') > 0" "hd (Split p ''/worktrees/'') = take i p"
      by (simp_all add: sp)
    with pre tr c show ?thesis
      by (simp only: gitdir_of_lines.simps Let_def Some if_True if_False option.case)
  qed
qed

lemma FindRealGitDir_file:
  assumes "Stat env (filepath_Join [root, ''.git'']) = Inr info" and "\<not> IsDir info"
    and "Open env (filepath_Join [root, ''.git'']) = Inr file"
    and "ReadAll file = Inr content" and "Close file = None"
  shows "FindRealGitDir env root
           = Inr (gitdir_of_lines (filepath_Join [root, ''.git'']) (Split content ''\<newline>''))"
  using assms by (simp add: FindRealGitDir_def Let_def)

text \<open>
  C6. Let the metadata marker be a regular file with a line \<open>gitdir: <path>\<close>, the first
  of its lines that starts with \<open>gitdir: \<close>, where \<open><path>\<close> has no white space at either
  end. When \<open><path>\<close> has no \<open>/worktrees/\<close> segment, the resolved metadata directory is
  \<open><path>\<close> unchanged; when it has one, the resolved metadata directory is the prefix of
  \<open><path>\<close> before that segment (the first one, when there are several).
\<close>

theorem FindRealGitDir_gitdir_line:
  assumes "Stat env (filepath_Join [root, ''.git'']) = Inr info" and "\<not> IsDir info"
    and "Open env (filepath_Join [root, ''.git'']) = Inr file"
    and "ReadAll file = Inr content" and "Close file = None"
    and "content = strings_Join (before @ [''gitdir: '' @ p] @ after) ''\<newline>''"
    and "\<forall>l\<in>set (before @ [p] @ after). CHR ''\<newline>'' \<notin> set l"
    and "\<forall>l\<in>set before. \<not> HasPrefix l ''gitdir: ''"
    and "TrimSpace p = p"
  shows "(\<not> (\<exists>a b. p = a @ ''/worktrees/'' @ b) \<longrightarrow> FindRealGitDir env root = Inr p)
       \<and> ((\<exists>a b. p = a @ ''/worktrees/'' @ b) \<longrightarrow>
            (\<exists>r rest. FindRealGitDir env root = Inr r \<and> p = r @ ''/worktrees/'' @ rest
               \<and> (\<forall>a b. p = a @ ''/worktrees/'' @ b \<longrightarrow> length r \<le> length a)))"
proof -
  let ?lines = "before @ [''gitdir: '' @ p] @ after"
  have "\<forall>l\<in>set ?lines. CHR ''\<newline>'' \<notin> set l" using assms(7) by auto
  then have "Split content ''\<newline>'' = ?lines"
    unfolding assms(6) by (intro Split_Join_char) simp_all
  then have "FindRealGitDir env root
               = Inr (gitdir_of_lines (filepath_Join [root, ''.git'']) ?lines)"
    using FindRealGitDir_file [OF assms(1-5)] by simp
  also have "gitdir_of_lines (filepath_Join [root, ''.git'']) ?lines
               = gitdir_of_lines (filepath_Join [root, ''.git'']) ((''gitdir: '' @ p) # after)"
    using gitdir_of_lines_skip [OF assms(8)] by simp
  also have "\<dots> = (case Index p ''/worktrees/'' of None \<Rightarrow> p | Some i \<Rightarrow> take i p)"
    by (rule gitdir_of_lines_hit [OF assms(9)])
  finally have res: "FindRealGitDir env root
      = Inr (case Index p ''/worktrees/'' of None \<Rightarrow> p | Some i \<Rightarrow> take i p)" .
  show ?thesis
  proof (cases "Index p ''/worktrees/''")
    case None
    then have "\<not> (\<exists>a b. p = a @ ''/worktrees/'' @ b)" using Index_None by blast
    with res None show ?thesis by simp
  next
    case (Some i)
    have cut: "p = take i p @ ''/worktrees/'' @ drop (i + length ''/worktrees/'') p"
      by (rule Index_Some_split [OF Some])
    have first: "length (take i p) \<le> length a" if "p = a @ ''/worktrees/'' @ b" for a b
      using Index_Some_first [OF Some that] by simp
    from res Some have "FindRealGitDir env root = Inr (take i p)" by simp
    with cut first show ?thesis by blast
  qed
qed

theorem FindRealGitDir_gitdir_line_witness:
  "FindRealGitDir (worktree_host ''/home/u/proj'') ''/home/u/proj'' = Inr ''/store''
   \<and> FindRealGitDir (gitfile_host ''gitdir: /store\<newline>'') ''/home/u/proj'' = Inr ''/store''"
proof -
  let ?root = "''/home/u/proj''"
  let ?W = "''/worktrees/''"
  let ?env = "worktree_host ''/home/u/proj''"
  let ?p = "''/store/worktrees/feature-x''"
  let ?content = "''gitdir: /store/worktrees/feature-x\<newline>''"
  let ?file = "\<lparr>ReadAll = Inr ?content, Close = None\<rparr>"
  have st: "Stat ?env (filepath_Join [?root, ''.git'']) = Inr \<lparr>IsDir = False\<rparr>" by code_simp
  have nd: "\<not> IsDir \<lparr>IsDir = False\<rparr>" by simp
  have op: "Open ?env (filepath_Join [?root, ''.git'']) = Inr ?file" by code_simp
  have ra: "ReadAll ?file = Inr ?content" by simp
  have cl: "Close ?file = None" by simp
  have co: "?content = strings_Join ([] @ [''gitdir: '' @ ?p] @ [[]]) ''\<newline>''" by simp
  have nl: "\<forall>l\<in>set ([] @ [?p] @ [[]]). CHR ''\<newline>'' \<notin> set l" by simp
  have nb: "\<forall>l\<in>set []. \<not> HasPrefix l ''gitdir: ''" by simp
  have tr: "TrimSpace ?p = ?p" by code_simp
  note t = FindRealGitDir_gitdir_line [OF st nd op ra cl co nl nb tr]
  have ex: "\<exists>a b. ?p = a @ ?W @ b"
    by (rule exI [of _ "''/store''"], rule exI [of _ "''feature-x''"]) simp
  from mp [OF conjunct2 [OF t] ex] obtain r where r: "FindRealGitDir ?env ?root = Inr r"
    by blast
  have "FindRealGitDir ?env ?root = Inr ''/store''" by code_simp
  with r have "r = ''/store''" by simp
  with r have one: "FindRealGitDir ?env ?root = Inr ''/store''" by simp
  let ?env' = "gitfile_host ''gitdir: /store\<newline>''"
  let ?p' = "''/store''"
  let ?content' = "''gitdir: /store\<newline>''"
  let ?file' = "\<lparr>ReadAll = Inr ?content', Close = None\<rparr>"
  have st': "Stat ?env' (filepath_Join [?root, ''.git'']) = Inr \<lparr>IsDir = False\<rparr>"
    by code_simp
  have op': "Open ?env' (filepath_Join [?root, ''.git'']) = Inr ?file'" by code_simp
  have ra': "ReadAll ?file' = Inr ?content'" by simp
  have cl': "Close ?file' = None" by simp
  have co': "?content' = strings_Join ([] @ [''gitdir: '' @ ?p'] @ [[]]) ''\<newline>''" by simp
  have nl': "\<forall>l\<in>set ([] @ [?p'] @ [[]]). CHR ''\<newline>'' \<notin> set l" by simp
  have tr': "TrimSpace ?p' = ?p'" by code_simp
  note t' = FindRealGitDir_gitdir_line [OF st' nd op' ra' cl' co' nl' nb tr']
  have nex: "\<not> (\<exists>a b. ?p' = a @ ?W @ b)"
  proof (intro notI, elim exE)
    fix a b assume "?p' = a @ ?W @ b"
    then have "length ?p' = length (a @ ?W @ b)" by (rule arg_cong)
    then show False by simp
  qed
  have two: "FindRealGitDir ?env' ?root = Inr ?p'" by (rule mp [OF conjunct1 [OF t'] nex])
  from one two show ?thesis by (intro conjI)
qed

subsection \<open>Volume expressions\<close>

lemma expandPath_absolute: "IsAbs path \<Longrightarrow> expandPath env path = path"
  by (cases path) (auto simp: expandPath_def IsAbs_def HasPrefix_def)

lemma Split_volume2:
  assumes "CHR '':'' \<notin> set src" and "CHR '':'' \<notin> set tgt"
  shows "Split (src @ CHR '':'' # tgt) '':'' = [src, tgt]"
  using assms by (simp add: Split_char_first Split_char_absent)

lemma Split_volume3:
  assumes "CHR '':'' \<notin> set src" and "CHR '':'' \<notin> set tgt"
  shows "Split (src @ CHR '':'' # tgt @ '':ro'') '':'' = [src, tgt, ''ro'']"
proof -
  have "Split (tgt @ '':ro'') '':'' = [tgt, ''ro'']"
    using assms(2) Split_char_first [of "CHR '':''" tgt "''ro''"]
    by (simp add: Split_char_absent)
  then show ?thesis
    using assms(1) Split_char_first [of "CHR '':''" src "tgt @ '':ro''"] by simp
qed

text \<open>
  C9. A volume expression whose source path (after expansion) does not exist yields no
  binding, with or without a third segment; with an existing absolute source and \<open>ro\<close>
  as its third segment it yields a binding from the source to the target that is
  read-only.
\<close>

theorem ParseVolume_source:
  assumes "CHR '':'' \<notin> set src" and "CHR '':'' \<notin> set tgt"
  shows "(isl (Stat env (expandPath env src)) \<longrightarrow>
            ParseVolume env (src @ '':'' @ tgt) = None
            \<and> ParseVolume env (src @ '':'' @ tgt @ '':ro'') = None)
       \<and> (IsAbs src \<and> \<not> isl (Stat env src) \<longrightarrow>
            ParseVolume env (src @ '':'' @ tgt @ '':ro'')
              = Some \<lparr>Type = TypeBind, Source = src, Target = tgt, ReadOnly = True\<rparr>)"
proof (intro conjI impI)
  assume "isl (Stat env (expandPath env src))"
  then obtain e where e: "Stat env (expandPath env src) = Inl e"
    by (cases "Stat env (expandPath env src)") auto
  show "ParseVolume env (src @ '':'' @ tgt) = None"
    using e by (simp add: ParseVolume_def Split_volume2 [OF assms] Let_def)
  show "ParseVolume env (src @ '':'' @ tgt @ '':ro'') = None"
    using e by (simp add: ParseVolume_def Split_volume3 [OF assms] Let_def)
next
  assume a: "IsAbs src \<and> \<not> isl (Stat env src)"
  then obtain info where "Stat env src = Inr info" by (cases "Stat env src") auto
  moreover from a have "expandPath env src = src" by (simp add: expandPath_absolute)
  ultimately show "ParseVolume env (src @ '':'' @ tgt @ '':ro'')
              = Some \<lparr>Type = TypeBind, Source = src, Target = tgt, ReadOnly = True\<rparr>"
    by (simp add: ParseVolume_def Split_volume3 [OF assms] Let_def)
qed

theorem ParseVolume_source_witness:
  "ParseVolume (worktree_host ''/home/u/proj'') ''relsrc:/tgt'' = None
   \<and> ParseVolume (worktree_host ''/home/u/proj'') ''relsrc:/tgt:ro'' = None
   \<and> ParseVolume (worktree_host ''/home/u/proj'') ''/data:/tgt:ro''
       = Some \<lparr>Type = TypeBind, Source = ''/data'', Target = ''/tgt'', ReadOnly = True\<rparr>"
proof -
  let ?env = "worktree_host ''/home/u/proj''"
  have c1: "CHR '':'' \<notin> set ''relsrc''" and c2: "CHR '':'' \<notin> set ''/tgt''"
    and c3: "CHR '':'' \<notin> set ''/data''" by simp_all
  have missing: "isl (Stat ?env (expandPath ?env ''relsrc''))" by code_simp
  have there: "IsAbs ''/data'' \<and> \<not> isl (Stat ?env ''/data'')" by code_simp
  from mp [OF conjunct1 [OF ParseVolume_source [OF c1 c2, of ?env]] missing]
  have "ParseVolume ?env (''relsrc'' @ '':'' @ ''/tgt'') = None
      \<and> ParseVolume ?env (''relsrc'' @ '':'' @ ''/tgt'' @ '':ro'') = None" .
  moreover from mp [OF conjunct2 [OF ParseVolume_source [OF c3 c2, of ?env]] there]
  have "ParseVolume ?env (''/data'' @ '':'' @ ''/tgt'' @ '':ro'')
       = Some \<lparr>Type = TypeBind, Source = ''/data'', Target = ''/tgt'', ReadOnly = True\<rparr>" .
  ultimately show ?thesis by simp
qed

subsection \<open>Path expansion\<close>

text \<open>
  C2 (as amended). For every path \<open>~/x\<close>: when the home directory is resolvable, expansion
  yields the cleaned join of the home directory and \<open>x\<close>, which is \<open><home>/x\<close> itself when
  that path is clean. When the home directory cannot be determined, the tilde is kept and
  the path is handled as a relative one: it is joined to the working directory, and is
  left unchanged only when the working directory cannot be determined either.
\<close>

theorem expandPath_tilde:
  "(UserHomeDir env = Inr home \<and> home \<noteq> [] \<longrightarrow>
      expandPath env (''~/'' @ x) = Clean (home @ ''/'' @ x)
      \<and> (Clean (home @ ''/'' @ x) = home @ ''/'' @ x \<longrightarrow>
           expandPath env (''~/'' @ x) = home @ ''/'' @ x))
   \<and> (isl (UserHomeDir env) \<longrightarrow>
        expandPath env (''~/'' @ x)
          = (case Getwd env of
               Inr wd \<Rightarrow> filepath_Join [wd, ''~/'' @ x]
             | Inl e \<Rightarrow> ''~/'' @ x))"
proof (intro conjI impI)
  assume h: "UserHomeDir env = Inr home \<and> home \<noteq> []"
  then have "filepath_Join [home, x] = Clean (home @ ''/'' @ x)"
    by (cases home) (simp_all add: filepath_Join_def)
  with h show e: "expandPath env (''~/'' @ x) = Clean (home @ ''/'' @ x)"
    by (simp add: expandPath_def HasPrefix_def)
  assume "Clean (home @ ''/'' @ x) = home @ ''/'' @ x"
  with e show "expandPath env (''~/'' @ x) = home @ ''/'' @ x" by simp
next
  assume "isl (UserHomeDir env)"
  then obtain e where "UserHomeDir env = Inl e" by (cases "UserHomeDir env") auto
  then show "expandPath env (''~/'' @ x)
          = (case Getwd env of
               Inr wd \<Rightarrow> filepath_Join [wd, ''~/'' @ x]
             | Inl e \<Rightarrow> ''~/'' @ x)"
    by (simp add: expandPath_def HasPrefix_def IsAbs_def Abs_def split: sum.splits)
qed

theorem expandPath_tilde_witness:
  "expandPath (worktree_host ''/home/u/proj'') ''~/.config'' = ''/home/u/.config''
   \<and> expandPath (homeless_host ''/home/u/proj'') ''~/.config'' = ''/home/u/proj/~/.config''"
proof -
  let ?env = "worktree_host ''/home/u/proj''"
  let ?env' = "homeless_host ''/home/u/proj''"
  have h: "UserHomeDir ?env = Inr ''/home/u'' \<and> ''/home/u'' \<noteq> []" by code_simp
  have c: "Clean (''/home/u'' @ ''/'' @ ''.config'') = ''/home/u'' @ ''/'' @ ''.config''"
    by code_simp
  note w = mp [OF conjunct1 [OF expandPath_tilde [of ?env "''/home/u''" "''.config''"]] h]
  have one: "expandPath ?env (''~/'' @ ''.config'') = ''/home/u'' @ ''/'' @ ''.config''"
    by (rule mp [OF conjunct2 [OF w] c])
  have n: "isl (UserHomeDir ?env')" by code_simp
  have g: "Getwd ?env' = Inr ''/home/u/proj''" by code_simp
  have j: "filepath_Join [''/home/u/proj'', ''~/'' @ ''.config''] = ''/home/u/proj/~/.config''"
    by code_simp
  from mp [OF conjunct2 [OF expandPath_tilde [of ?env' "[]" "''.config''"]] n]
  have two: "expandPath ?env' (''~/'' @ ''.config'') = ''/home/u/proj/~/.config''"
    by (simp only: g j sum.case)
  from one two show ?thesis by simp
qed

text \<open>
  The claim as first stated fails where the home directory cannot be determined and the
  working directory can: the path does not stay as it is.
\<close>

theorem expandPath_tilde_counterexample:
  "UserHomeDir (homeless_host ''/home/u/proj'') = Inl ErrOther
   \<and> expandPath (homeless_host ''/home/u/proj'') ''~/x'' = ''/home/u/proj/~/x''
   \<and> expandPath (homeless_host ''/home/u/proj'') ''~/x'' \<noteq> ''~/x''"
  by code_simp

subsection \<open>Script mode and validation\<close>

lemma apply_node_Command:
  "Command (apply_node c n)
     = Command c @ (if Key n = ''command'' then extractList (Value n) else [])"
  by (simp add: apply_node_def Let_def split: up_value.splits)

lemma foldl_apply_node_Command:
  "Command (foldl apply_node c nodes)
     = Command c @ concat (map (\<lambda>n. extractList (Value n))
                              (filter (\<lambda>n. Key n = ''command'') nodes))"
  by (induction nodes arbitrary: c) (simp_all add: apply_node_Command)

lemma ParseFile_Inr:
  assumes "ParseFile env ParseDocument path = Inr c"
  shows "Image c \<noteq> []
       \<and> (\<exists>doc nodes. ParseDocument doc = Inr nodes
             \<and> c = foldl apply_node zero_Config nodes)"
  using assms
  by (auto simp: ParseFile_def Let_def split: sum.splits option.splits if_splits)

lemma script_config_Inr:
  assumes "script_config env ParseDocument args = Some (Inr sc)"
  shows "\<exists>c. ParseFile env ParseDocument (args ! 0) = Inr c
           \<and> sc = c\<lparr>ScriptPath := args ! 0, ScriptArgs := drop 1 args\<rparr>"
  using assms
  by (auto simp: script_config_def Let_def split: if_splits sum.splits error.splits)

text \<open>
  C5. In script mode (the first positional argument names a file that is not a directory
  and parses as a launch script with an image) the command of the launch specification
  is the \<open>command\<close> field of the script, followed by the remaining positional arguments
  in order; the configuration filled by the flags is not used: the calls to the engine
  and the outcome are the same whatever it holds, and it is left as it was.
\<close>

theorem script_mode_command:
  assumes "args = firstArg # rest" and "firstArg \<noteq> []"
    and "Stat env firstArg = Inr info" and "\<not> IsDir info"
    and "ParseFile env ParseDocument firstArg = Inr scriptCfg"
  shows "action eng env ParseDocument cfg args
           = (cfg, Run eng env (scriptCfg\<lparr>ScriptPath := firstArg, ScriptArgs := rest\<rparr>))
       \<and> (\<forall>cc hc. CallContainerCreate cc hc
                    \<in> set (fst (snd (action eng env ParseDocument cfg args))) \<longrightarrow>
                  cc_Cmd cc = Command scriptCfg @ rest)
       \<and> (\<exists>doc nodes. ParseDocument doc = Inr nodes
             \<and> Command scriptCfg
                 = concat (map (\<lambda>n. extractList (Value n))
                               (filter (\<lambda>n. Key n = ''command'') nodes)))
       \<and> snd (action eng env ParseDocument cfg args)
           = snd (action eng env ParseDocument cfg' args)"
proof -
  let ?sc = "scriptCfg\<lparr>ScriptPath := firstArg, ScriptArgs := rest\<rparr>"
  have sc: "script_config env ParseDocument args = Some (Inr ?sc)"
    using assms by (simp add: script_config_def Let_def)
  have act: "action eng env ParseDocument c args = (c, Run eng env ?sc)" for c
    by (simp add: action_def sc app_Action_def split: prod.splits)
  have cmd: "cc_Cmd cc = Command scriptCfg @ rest"
    if "CallContainerCreate cc hc \<in> set (fst (snd (action eng env ParseDocument cfg args)))"
    for cc hc
  proof -
    from that have "CallContainerCreate cc hc \<in> set (fst (Run eng env ?sc))"
      by (simp add: act)
    from Run_create [OF this] assms(2) show ?thesis by auto
  qed
  from ParseFile_Inr [OF assms(5)] obtain doc nodes where
    "ParseDocument doc = Inr nodes" "scriptCfg = foldl apply_node zero_Config nodes"
    by blast
  then have field: "\<exists>doc nodes. ParseDocument doc = Inr nodes
             \<and> Command scriptCfg
                 = concat (map (\<lambda>n. extractList (Value n))
                               (filter (\<lambda>n. Key n = ''command'') nodes))"
    using foldl_apply_node_Command [of zero_Config nodes] by (auto simp: zero_Config_def)
  show ?thesis using act [of cfg] act [of cfg'] cmd field by (intro conjI) simp_all
qed

theorem script_mode_command_witness:
  "CallContainerCreate
     \<lparr>cc_Image = ''alpine'', cc_Cmd = [''echo'', ''hi'', ''a'', ''b''], cc_Entrypoint = [],
      cc_WorkingDir = ''/home/u/proj/src'', cc_Env = [], cc_User = [], cc_Tty = False,
      cc_AttachStdin = False, cc_AttachStdout = True, cc_AttachStderr = True,
      cc_OpenStdin = False\<rparr>
     \<lparr>hc_Mounts = [bind_mount ''/home/u/proj/src'' ''/home/u/proj/src'',
                   bind_mount ''/home/u/proj'' ''/home/u/proj'',
                   bind_mount ''/store'' ''/home/u/proj/.git''],
      hc_AutoRemove = True, hc_Privileged = False, hc_NetworkMode = []\<rparr>
     \<in> set (fst (snd (action engine_ok script_host up_example flags_cfg
                          [''job.up'', ''a'', ''b''])))
   \<and> snd (action engine_ok script_host up_example flags_cfg [''job.up'', ''a'', ''b''])
     = snd (action engine_ok script_host up_example zero_Config [''job.up'', ''a'', ''b''])"
proof -
  let ?cc = "\<lparr>cc_Image = ''alpine'', cc_Cmd = [''echo'', ''hi'', ''a'', ''b''], cc_Entrypoint = [],
      cc_WorkingDir = ''/home/u/proj/src'', cc_Env = [], cc_User = [], cc_Tty = False,
      cc_AttachStdin = False, cc_AttachStdout = True, cc_AttachStderr = True,
      cc_OpenStdin = False\<rparr>"
  let ?hc = "\<lparr>hc_Mounts = [bind_mount ''/home/u/proj/src'' ''/home/u/proj/src'',
                   bind_mount ''/home/u/proj'' ''/home/u/proj'',
                   bind_mount ''/store'' ''/home/u/proj/.git''],
      hc_AutoRemove = True, hc_Privileged = False, hc_NetworkMode = []\<rparr>"
  let ?args = "[''job.up'', ''a'', ''b'']"
  let ?sc = "zero_Config\<lparr>Image := ''alpine'', Command := [''echo'', ''hi'']\<rparr>"
  have ne: "''job.up'' \<noteq> []" by simp
  have st: "Stat script_host ''job.up'' = Inr \<lparr>IsDir = False\<rparr>" by code_simp
  have nd: "\<not> IsDir \<lparr>IsDir = False\<rparr>" by simp
  have pf: "ParseFile script_host up_example ''job.up'' = Inr ?sc" by code_simp
  note w = script_mode_command [OF refl ne st nd pf,
      where eng = engine_ok and cfg = flags_cfg and cfg' = zero_Config
        and rest = "[''a'', ''b'']"]
  have made: "CallContainerCreate ?cc ?hc
      \<in> set (fst (snd (action engine_ok script_host up_example flags_cfg ?args)))"
    by code_simp
  from w have same: "snd (action engine_ok script_host up_example flags_cfg ?args)
     = snd (action engine_ok script_host up_example zero_Config ?args)"
    by (elim conjE)
  from made same show ?thesis by (intro conjI)
qed

lemma Run_calls_image:
  assumes "CallContainerCreate cc hc \<in> set (fst (Run eng env c))"
  shows "cc_Image cc = Image c"
  using Run_create [OF assms] by blast

lemma action_cases:
  "(\<exists>e. script_config env ParseDocument args = Some (Inl e)
        \<and> action eng env ParseDocument cfg args = (cfg, [], Inl e))
   \<or> (\<exists>sc. script_config env ParseDocument args = Some (Inr sc) \<and> Image sc \<noteq> []
        \<and> action eng env ParseDocument cfg args = (cfg, Run eng env sc))
   \<or> (script_config env ParseDocument args = None \<and> Image cfg = []
        \<and> action eng env ParseDocument cfg args
            = (cfg\<lparr>Command := Command cfg @ args\<rparr>, [],
               Inl (ExitError ''--image flag is required when not running as script interpreter'' 1)))
   \<or> (script_config env ParseDocument args = None \<and> Image cfg \<noteq> []
        \<and> action eng env ParseDocument cfg args
            = (cfg\<lparr>Command := Command cfg @ args\<rparr>,
               Run eng env (cfg\<lparr>Command := Command cfg @ args\<rparr>)))"
proof (cases "script_config env ParseDocument args")
  case None
  then show ?thesis
    by (cases "Image cfg = []") (simp_all add: action_def app_Action_def Let_def split: prod.splits)
next
  case (Some r)
  show ?thesis
  proof (cases r)
    case (Inl e)
    with Some show ?thesis by (simp add: action_def)
  next
    case (Inr sc)
    from script_config_Inr [OF Some [unfolded Inr]] obtain c where
      "ParseFile env ParseDocument (args ! 0) = Inr c"
      "sc = c\<lparr>ScriptPath := args ! 0, ScriptArgs := drop 1 args\<rparr>" by blast
    with ParseFile_Inr [of env ParseDocument "args ! 0" c] have "Image sc \<noteq> []" by simp
    with Some Inr show ?thesis
      by (simp add: action_def app_Action_def split: prod.splits)
  qed
qed

lemma Run_calls_nonempty: "fst (Run eng env c) \<noteq> []"
  by (simp add: Run_def Let_def split: option.splits prod.splits)

lemma action_engine_calls:
  assumes "fst (snd (action eng env ParseDocument cfg args)) \<noteq> []"
  shows "\<exists>c'. Image c' \<noteq> [] \<and> snd (action eng env ParseDocument cfg args) = Run eng env c'"
  using action_cases [of env ParseDocument args eng cfg]
proof (elim disjE exE conjE)
  fix e assume "action eng env ParseDocument cfg args = (cfg, [], Inl e)"
  with assms show ?thesis by simp
next
  fix sc assume "Image sc \<noteq> []" "action eng env ParseDocument cfg args = (cfg, Run eng env sc)"
  then show ?thesis by auto
next
  assume "action eng env ParseDocument cfg args
            = (cfg\<lparr>Command := Command cfg @ args\<rparr>, [],
               Inl (ExitError ''--image flag is required when not running as script interpreter'' 1))"
  with assms show ?thesis by simp
next
  assume "Image cfg \<noteq> []" "action eng env ParseDocument cfg args
            = (cfg\<lparr>Command := Command cfg @ args\<rparr>,
               Run eng env (cfg\<lparr>Command := Command cfg @ args\<rparr>))"
  then have "Image (cfg\<lparr>Command := Command cfg @ args\<rparr>) \<noteq> []
      \<and> snd (action eng env ParseDocument cfg args)
          = Run eng env (cfg\<lparr>Command := Command cfg @ args\<rparr>)" by simp
  then show ?thesis by (rule exI)
qed

text \<open>
  C8. A launch whose image is empty fails validation, whatever else is set, before any
  call to the execution engine: a script without an image is not accepted by
  \<open>ParseFile\<close>; outside script mode an empty image in the configuration of the flags
  ends the command with an error and no call to the engine; and whenever the engine is
  called at all, it is by \<open>Run\<close> on a configuration whose image is not empty, so that
  every launch specification handed over has an image.
\<close>

theorem empty_image_rejected:
  "(ParseFile env ParseDocument path = Inr c \<longrightarrow> Image c \<noteq> [])
   \<and> (script_config env ParseDocument args = None \<and> Image cfg = [] \<longrightarrow>
        snd (action eng env ParseDocument cfg args)
          = ([], Inl (ExitError
                        ''--image flag is required when not running as script interpreter'' 1)))
   \<and> (fst (snd (action eng env ParseDocument cfg args)) \<noteq> [] \<longrightarrow>
        (\<exists>c'. Image c' \<noteq> [] \<and> snd (action eng env ParseDocument cfg args) = Run eng env c'))
   \<and> (\<forall>cc hc. CallContainerCreate cc hc
                  \<in> set (fst (snd (action eng env ParseDocument cfg args))) \<longrightarrow>
                cc_Image cc \<noteq> [])"
proof (intro conjI impI allI)
  assume "ParseFile env ParseDocument path = Inr c"
  then show "Image c \<noteq> []" using ParseFile_Inr by blast
next
  assume "script_config env ParseDocument args = None \<and> Image cfg = []"
  then show "snd (action eng env ParseDocument cfg args)
          = ([], Inl (ExitError
                        ''--image flag is required when not running as script interpreter'' 1))"
    using action_cases [of env ParseDocument args eng cfg] by auto
next
  assume "fst (snd (action eng env ParseDocument cfg args)) \<noteq> []"
  then show "\<exists>c'. Image c' \<noteq> [] \<and> snd (action eng env ParseDocument cfg args) = Run eng env c'"
    by (rule action_engine_calls)
next
  fix cc hc
  assume m: "CallContainerCreate cc hc \<in> set (fst (snd (action eng env ParseDocument cfg args)))"
  then have "fst (snd (action eng env ParseDocument cfg args)) \<noteq> []" by auto
  then obtain c' where c': "Image c' \<noteq> []"
    "snd (action eng env ParseDocument cfg args) = Run eng env c'"
    using action_engine_calls by blast
  with m have "CallContainerCreate cc hc \<in> set (fst (Run eng env c'))" by simp
  from Run_calls_image [OF this] c'(1) show "cc_Image cc \<noteq> []" by simp
qed

theorem empty_image_rejected_witness:
  "snd (action engine_ok script_host up_example
          (zero_Config\<lparr>User := ''root'', Privileged := True, Volumes := [''/data:/mnt'']\<rparr>)
          [''ls'', ''-l''])
     = ([], Inl (ExitError
                   ''--image flag is required when not running as script interpreter'' 1))"
proof -
  let ?cfg = "zero_Config\<lparr>User := ''root'', Privileged := True, Volumes := [''/data:/mnt'']\<rparr>"
  have h: "script_config script_host up_example [''ls'', ''-l''] = None \<and> Image ?cfg = []"
    by code_simp
  note w = empty_image_rejected [of script_host up_example "[]" zero_Config "[''ls'', ''-l'']"
      ?cfg engine_ok]
  show ?thesis by (rule mp [OF conjunct1 [OF conjunct2 [OF w]] h])
qed

subsection \<open>User-supplied volumes\<close>

lemma base_mounts_Volumes: "base_mounts env (cfg\<lparr>Volumes := vs\<rparr>) pwd = base_mounts env cfg pwd"
  by (simp add: base_mounts_def)

lemma run_container_Volumes:
  "run_container eng env (cfg\<lparr>Volumes := vs\<rparr>) = run_container eng env cfg"
  by (simp add: run_container_def base_mounts_Volumes Let_def
        cong: sum.case_cong option.case_cong prod.case_cong)

lemma Run_Volumes: "Run eng env (cfg\<lparr>Volumes := vs\<rparr>) = Run eng env cfg"
  by (simp only: Run_def run_container_Volumes)

text \<open>
  C1. A volume expression that resolves to a valid binding should appear among the
  bindings of the launch specification. It does not: \<open>Run\<close> never reads the volumes of
  its configuration. Here \<open>/data:/mnt\<close> resolves to a binding, and the launch
  specification holds the default bindings only.
\<close>

theorem volumes_not_mounted:
  "ParseVolume (worktree_host ''/home/u/proj/src'') ''/data:/mnt''
     = Some \<lparr>Type = TypeBind, Source = ''/data'', Target = ''/mnt'', ReadOnly = False\<rparr>
   \<and> fst (Run engine_ok (worktree_host ''/home/u/proj/src'')
             (alpine_cfg\<lparr>Volumes := [''/data:/mnt'']\<rparr>))
     = [CallNewClient,
        CallContainerCreate
          \<lparr>cc_Image = ''alpine'', cc_Cmd = [], cc_Entrypoint = [],
           cc_WorkingDir = ''/home/u/proj/src'', cc_Env = [], cc_User = [], cc_Tty = False,
           cc_AttachStdin = False, cc_AttachStdout = True, cc_AttachStderr = True,
           cc_OpenStdin = False\<rparr>
          \<lparr>hc_Mounts = [bind_mount ''/home/u/proj/src'' ''/home/u/proj/src'',
                        bind_mount ''/home/u/proj'' ''/home/u/proj'',
                        bind_mount ''/store'' ''/home/u/proj/.git''],
           hc_AutoRemove = True, hc_Privileged = False, hc_NetworkMode = []\<rparr>,
        CallContainerStart ''c0ffee'', CallContainerWait ''c0ffee'', CallClose]"
  by code_simp

end
